theory Spec2Isabelle
  imports Complex_Main
begin

section \<open>The price chart: data model\<close>

text \<open>
  The development follows \<^verbatim>\<open>src/components/PriceChart.js\<close>. The component keeps its
  state in React hooks; the asynchronous functions of the component are modelled by
  the continuation that runs when their request has been answered, as a function from
  the component state to the component state.
\<close>

subsection \<open>JavaScript numbers, as far as the component uses them\<close>

text \<open>
  Prices are the results of \<^verbatim>\<open>parseFloat\<close>. The chart logic never does arithmetic on
  a price: it compares prices with \<^verbatim>\<open>>\<close> and tests them for
  truthiness. A number is therefore NaN, an infinity or a finite value; the two zeros
  are one value, which both operations treat alike.
\<close>

datatype num = NaN | PosInf | NegInf | Num rat

fun gt :: "num \<Rightarrow> num \<Rightarrow> bool" where
  "gt NaN _ = False"
| "gt _ NaN = False"
| "gt PosInf PosInf = False"
| "gt PosInf _ = True"
| "gt _ PosInf = False"
| "gt NegInf _ = False"
| "gt (Num a) NegInf = True"
| "gt (Num a) (Num b) = (b < a)"

fun truthy :: "num \<Rightarrow> bool" where
  "truthy NaN = False"
| "truthy (Num a) = (a \<noteq> 0)"
| "truthy _ = True"

text \<open>\<^verbatim>\<open>x > previousClose\<close> where \<^verbatim>\<open>previousClose\<close> may be \<^verbatim>\<open>null\<close>: the
  relational comparison converts \<^verbatim>\<open>null\<close> to \<^verbatim>\<open>+0\<close>.\<close>

definition toNumber :: "num option \<Rightarrow> num" where
  "toNumber v = (case v of None \<Rightarrow> Num 0 | Some x \<Rightarrow> x)"

definition gt_nullable :: "num \<Rightarrow> num option \<Rightarrow> bool" where
  "gt_nullable x pc = gt x (toNumber pc)"

subsection \<open>Number formatting\<close>

definition digit_char :: "nat \<Rightarrow> char" where
  "digit_char d = ''0123456789'' ! d"

fun toString :: "nat \<Rightarrow> string" where
  "toString n = (if n < 10 then [digit_char n] else toString (n div 10) @ [digit_char (n mod 10)])"

declare toString.simps [simp del]

definition padStart :: "nat \<Rightarrow> char \<Rightarrow> string \<Rightarrow> string" where
  "padStart n c s = replicate (n - length s) c @ s"

definition pad2 :: "nat \<Rightarrow> string" where
  "pad2 n = padStart 2 (CHR ''0'') (toString n)"

subsection \<open>The host environment\<close>

text \<open>
  \<^verbatim>\<open>Date\<close> and \<^verbatim>\<open>parseFloat\<close> belong to the JavaScript host, not to the repository.
  The local-time accessors of \<^verbatim>\<open>Date\<close> depend on the time zone of the browser, so
  they are parameters: every function below takes the host as its first argument.
  Timestamps are milliseconds since the epoch.
\<close>

record host =
  getHours :: "int \<Rightarrow> nat"
  getMinutes :: "int \<Rightarrow> nat"
  getMonth :: "int \<Rightarrow> nat"
  getDate :: "int \<Rightarrow> nat"
  toLocaleTimeString :: "int \<Rightarrow> string"
  startOfDay :: "int \<Rightarrow> int"
  endOfDay :: "int \<Rightarrow> int"
  startOfYear :: "int \<Rightarrow> int"
  parseFloat :: "string \<Rightarrow> num"

text \<open>The host of a browser in UTC, on the first day of the epoch; it is the concrete
  host of the examples.\<close>

definition utc_host :: "(string \<Rightarrow> num) \<Rightarrow> host" where
  "utc_host pf =
     \<lparr> getHours = (\<lambda>t. nat ((t div 3600000) mod 24)),
       getMinutes = (\<lambda>t. nat ((t div 60000) mod 60)),
       getMonth = (\<lambda>t. 0),
       getDate = (\<lambda>t. 1),
       toLocaleTimeString = (\<lambda>t. []),
       startOfDay = (\<lambda>t. t - t mod 86400000),
       endOfDay = (\<lambda>t. t - t mod 86400000 + 86399999),
       startOfYear = (\<lambda>t. 0),
       parseFloat = pf \<rparr>"

subsection \<open>Intervals, candles, series\<close>

text \<open>The interval state is one of the six strings the buttons set:
  \<^verbatim>\<open>'1m'\<close> (Today), \<^verbatim>\<open>'1w'\<close>, \<^verbatim>\<open>'1M'\<close>, \<^verbatim>\<open>'3M'\<close>, \<^verbatim>\<open>'YTD'\<close>, \<^verbatim>\<open>'1Y'\<close>.\<close>

datatype ivl = Today | Week | Month | ThreeMonths | YearToDate | Year

text \<open>A row of the klines endpoint: index 0 is the open time, index 4 the close price,
  a decimal string. The other columns are never read.\<close>

record kline =
  openTime :: int
  close :: string

text \<open>A slot of the price array: \<^verbatim>\<open>null\<close>, a number, or \<^verbatim>\<open>undefined\<close> (which only
  an assignment beyond the end of an array creates).\<close>

datatype cell = Null | Undefined | Val num

subsection \<open>SeriesBuilder: labels and prices of \<^verbatim>\<open>fetchHistoricalData\<close>\<close>

definition timeLabel :: "nat \<Rightarrow> nat \<Rightarrow> string" where
  "timeLabel hour minute = pad2 hour @ '':'' @ pad2 minute"

definition matchingKline :: "host \<Rightarrow> kline list \<Rightarrow> nat \<Rightarrow> nat \<Rightarrow> kline option" where
  "matchingKline H dat hour minute =
     find (\<lambda>k. getHours H (openTime k) = hour \<and> getMinutes H (openTime k) = minute) dat"

definition slotPrice :: "host \<Rightarrow> kline list \<Rightarrow> nat \<Rightarrow> nat \<Rightarrow> cell" where
  "slotPrice H dat hour minute =
     (case matchingKline H dat hour minute of
        Some k \<Rightarrow> Val (parseFloat H (close k))
      | None \<Rightarrow> Null)"

text \<open>The two nested \<^verbatim>\<open>for\<close> loops (hours 0 to 23, minutes 0 to 59) push one label
  and one price per iteration.\<close>

definition todaySlots :: "(nat \<times> nat) list" where
  "todaySlots = concat (map (\<lambda>hour. map (\<lambda>minute. (hour, minute)) [0..<60]) [0..<24])"

definition klineLabel :: "host \<Rightarrow> ivl \<Rightarrow> int \<Rightarrow> string" where
  "klineLabel H iv t =
     (case iv of
        Week \<Rightarrow> pad2 (getMonth H t + 1) @ ''/'' @ pad2 (getDate H t) @ '' '' @ pad2 (getHours H t) @ '':00''
      | Month \<Rightarrow> pad2 (getMonth H t + 1) @ ''/'' @ pad2 (getDate H t) @ '' '' @ pad2 (getHours H t) @ '':00''
      | ThreeMonths \<Rightarrow> pad2 (getMonth H t + 1) @ ''/'' @ pad2 (getDate H t)
      | YearToDate \<Rightarrow> pad2 (getMonth H t + 1) @ ''/'' @ pad2 (getDate H t)
      | Year \<Rightarrow> pad2 (getMonth H t + 1) @ ''/'' @ pad2 (getDate H t)
      | Today \<Rightarrow> toLocaleTimeString H t)"

text \<open>\<open>build\<close> returns the two local arrays \<^verbatim>\<open>labels\<close> and \<^verbatim>\<open>prices\<close>.\<close>

definition build :: "host \<Rightarrow> ivl \<Rightarrow> kline list \<Rightarrow> string list \<times> cell list" where
  "build H iv dat =
     (if iv = Today then
        (map (\<lambda>(hour, minute). timeLabel hour minute) todaySlots,
         map (\<lambda>(hour, minute). slotPrice H dat hour minute) todaySlots)
      else
        (map (\<lambda>k. klineLabel H iv (openTime k)) dat,
         map (\<lambda>k. Val (parseFloat H (close k))) dat))"

text \<open>The minute string of the specification: two decimal digits, a colon, two decimal
  digits.\<close>

definition hhmm :: "nat \<Rightarrow> nat \<Rightarrow> string" where
  "hhmm h m = [digit_char (h div 10), digit_char (h mod 10), CHR '':'',
               digit_char (m div 10), digit_char (m mod 10)]"

subsection \<open>The chart data handed to the renderer\<close>

definition green :: string where "green = ''rgba(0, 128, 0, 1)''"
definition red :: string where "red = ''rgba(255, 0, 0, 1)''"
definition gray :: string where "gray = ''rgba(128, 128, 128, 1)''"
definition transparent :: string where "transparent = ''transparent''"
definition white :: string where "white = ''white''"

text \<open>
  The first dataset of \<^verbatim>\<open>chartData\<close>. The initial state of the hook has only
  \<^verbatim>\<open>data\<close> and constant styling, so the attributes that the two update paths
  compute are optional. The scriptable attributes are functions of
  \<^verbatim>\<open>context.dataIndex\<close>. The constant styling literals (\<^verbatim>\<open>backgroundColor\<close>,
  \<^verbatim>\<open>fill\<close>, \<^verbatim>\<open>tension\<close>, \<^verbatim>\<open>pointBorderWidth\<close>, \<^verbatim>\<open>pointHoverRadius\<close>) are the
  same on every path and are left out.
\<close>

record dataset =
  data :: "cell list"
  spanGaps :: "bool option"
  pointRadius :: "(nat \<Rightarrow> nat) option"
  pointBackgroundColor :: "(nat \<Rightarrow> string) option"
  pointBorderColor :: "(nat \<Rightarrow> string) option"
  borderColor :: "string option"

text \<open>The second dataset, the dashed reference line, present when
  \<^verbatim>\<open>previousClose !== null\<close>.\<close>

record refLine =
  refLabel :: string
  refData :: "num list"

record chart =
  labels :: "string list"
  main :: dataset
  reference :: "refLine option"

definition chart0 :: chart where
  "chart0 = \<lparr> labels = [],
              main = \<lparr> data = [], spanGaps = None, pointRadius = None,
                       pointBackgroundColor = None, pointBorderColor = None,
                       borderColor = None \<rparr>,
              reference = None \<rparr>"

definition closeLabel :: "ivl \<Rightarrow> string" where
  "closeLabel iv =
     (if iv = Today then ''Yesterday Close''
      else if iv = Week then ''Last Week Close''
      else if iv = Month then ''Last Month Close''
      else if iv = ThreeMonths then ''3M Ago Close''
      else if iv = YearToDate then ''Last Year Close''
      else if iv = Year then ''1Y Ago Close''
      else ''Previous Close'')"

definition referenceLine :: "ivl \<Rightarrow> num option \<Rightarrow> nat \<Rightarrow> refLine option" where
  "referenceLine iv previousClose n =
     (case previousClose of
        None \<Rightarrow> None
      | Some pc \<Rightarrow> Some \<lparr> refLabel = closeLabel iv, refData = replicate n pc \<rparr>)"

subsection \<open>Operations on price cells\<close>

definition notNull :: "cell \<Rightarrow> bool" where
  "notNull c = (c \<noteq> Null)"

fun cellTruthy :: "cell \<Rightarrow> bool" where
  "cellTruthy (Val x) = truthy x"
| "cellTruthy _ = False"

fun cellToNumber :: "cell \<Rightarrow> num" where
  "cellToNumber Null = Num 0"
| "cellToNumber Undefined = NaN"
| "cellToNumber (Val x) = x"

definition cellGt :: "cell \<Rightarrow> num option \<Rightarrow> bool" where
  "cellGt c pc = gt (cellToNumber c) (toNumber pc)"

text \<open>\<^verbatim>\<open>Array.prototype.findLastIndex\<close> visits the indices from the last to the first;
  \<open>None\<close> stands for its result \<^verbatim>\<open>-1\<close>, which no \<^verbatim>\<open>dataIndex\<close> equals.\<close>

definition findLastIndex :: "('a \<Rightarrow> bool) \<Rightarrow> 'a list \<Rightarrow> nat option" where
  "findLastIndex P xs = find (\<lambda>i. P (xs ! i)) (rev [0..<length xs])"

text \<open>\<^verbatim>\<open>Array.prototype.indexOf\<close>; \<open>None\<close> stands for \<^verbatim>\<open>-1\<close>.\<close>

fun indexOf :: "'a list \<Rightarrow> 'a \<Rightarrow> nat option" where
  "indexOf [] x = None"
| "indexOf (y # ys) x = (if y = x then Some 0 else map_option Suc (indexOf ys x))"

text \<open>\<^verbatim>\<open>prices.filter(price => price !== null).pop()\<close>; \<open>None\<close> stands for
  \<^verbatim>\<open>undefined\<close>.\<close>

definition lastValidPrice :: "cell list \<Rightarrow> cell option" where
  "lastValidPrice ps = (case filter notNull ps of [] \<Rightarrow> None | c # cs \<Rightarrow> Some (last (c # cs)))"

text \<open>\<^verbatim>\<open>newData[timeIndex] = closePrice\<close>: an index beyond the end extends the array,
  leaving holes that read as \<^verbatim>\<open>undefined\<close>.\<close>

definition assign :: "cell list \<Rightarrow> nat \<Rightarrow> cell \<Rightarrow> cell list" where
  "assign xs i v =
     (if i < length xs then xs[i := v]
      else xs @ replicate (i - length xs) Undefined @ [v])"

subsection \<open>Presentation on the initial path (\<^verbatim>\<open>fetchHistoricalData\<close>)\<close>

definition initialPointRadius :: "cell list \<Rightarrow> nat \<Rightarrow> nat" where
  "initialPointRadius ps i = (if findLastIndex notNull ps = Some i then 6 else 0)"

definition initialPointBackgroundColor :: "num option \<Rightarrow> cell list \<Rightarrow> nat \<Rightarrow> string" where
  "initialPointBackgroundColor previousClose ps i =
     (if findLastIndex notNull ps = Some i \<and> ps ! i \<noteq> Null then
        (if 0 < length ps \<and> previousClose \<noteq> None
         then (if cellGt (ps ! i) previousClose then green else red)
         else gray)
      else transparent)"

definition initialPointBorderColor :: "cell list \<Rightarrow> nat \<Rightarrow> string" where
  "initialPointBorderColor ps i =
     (if findLastIndex notNull ps = Some i \<and> ps ! i \<noteq> Null then white else transparent)"

definition initialBorderColor :: "num option \<Rightarrow> cell list \<Rightarrow> string" where
  "initialBorderColor previousClose ps =
     (case lastValidPrice ps of
        None \<Rightarrow> gray
      | Some c \<Rightarrow>
          if cellTruthy c \<and> previousClose \<noteq> None
          then (if cellGt c previousClose then green else red)
          else gray)"

definition initialChart :: "ivl \<Rightarrow> num option \<Rightarrow> string list \<times> cell list \<Rightarrow> chart" where
  "initialChart iv previousClose lp =
     \<lparr> labels = fst lp,
       main = \<lparr> data = snd lp,
                spanGaps = Some False,
                pointRadius = Some (initialPointRadius (snd lp)),
                pointBackgroundColor = Some (initialPointBackgroundColor previousClose (snd lp)),
                pointBorderColor = Some (initialPointBorderColor (snd lp)),
                borderColor = Some (initialBorderColor previousClose (snd lp)) \<rparr>,
       reference = referenceLine iv previousClose (length (fst lp)) \<rparr>"

subsection \<open>Presentation on the live path (\<^verbatim>\<open>ws.onmessage\<close>)\<close>

definition livePointRadius :: "nat \<Rightarrow> nat \<Rightarrow> nat" where
  "livePointRadius timeIndex i = (if i = timeIndex then 6 else 0)"

definition livePointBackgroundColor :: "num option \<Rightarrow> num \<Rightarrow> nat \<Rightarrow> nat \<Rightarrow> string" where
  "livePointBackgroundColor previousClose closePrice timeIndex i =
     (if i = timeIndex
      then (if gt_nullable closePrice previousClose then green else red)
      else transparent)"

definition livePointBorderColor :: "nat \<Rightarrow> nat \<Rightarrow> string" where
  "livePointBorderColor timeIndex i = (if i = timeIndex then white else transparent)"

definition liveBorderColor :: "num option \<Rightarrow> num \<Rightarrow> string" where
  "liveBorderColor previousClose closePrice =
     (if previousClose \<noteq> None
      then (if gt_nullable closePrice previousClose then green else red)
      else gray)"

text \<open>The updater passed to \<^verbatim>\<open>setChartData\<close>: \<open>prev\<close> is returned as it is when the
  label is not found.\<close>

definition liveUpdate :: "ivl \<Rightarrow> num option \<Rightarrow> string \<Rightarrow> num \<Rightarrow> chart \<Rightarrow> chart" where
  "liveUpdate iv previousClose timestamp closePrice prev =
     (case indexOf (labels prev) timestamp of
        None \<Rightarrow> prev
      | Some timeIndex \<Rightarrow>
          \<lparr> labels = labels prev,
            main = (main prev)
              \<lparr> data := assign (data (main prev)) timeIndex (Val closePrice),
                pointRadius := Some (livePointRadius timeIndex),
                pointBackgroundColor := Some (livePointBackgroundColor previousClose closePrice timeIndex),
                pointBorderColor := Some (livePointBorderColor timeIndex),
                borderColor := Some (liveBorderColor previousClose closePrice) \<rparr>,
            reference = referenceLine iv previousClose (length (labels prev)) \<rparr>)"

subsection \<open>What the renderer reads at a data index\<close>

definition radiusAt :: "chart \<Rightarrow> nat \<Rightarrow> nat option" where
  "radiusAt c i = map_option (\<lambda>f. f i) (pointRadius (main c))"

definition markerColorAt :: "chart \<Rightarrow> nat \<Rightarrow> string option" where
  "markerColorAt c i = map_option (\<lambda>f. f i) (pointBackgroundColor (main c))"

definition markerBorderAt :: "chart \<Rightarrow> nat \<Rightarrow> string option" where
  "markerBorderAt c i = map_option (\<lambda>f. f i) (pointBorderColor (main c))"

definition lineColor :: "chart \<Rightarrow> string option" where
  "lineColor c = borderColor (main c)"

subsection \<open>The component state and the stream handler\<close>

record state =
  interval :: ivl
  currentPrice :: "num option"
  chartData :: chart
  yesterdayClose :: "num option"
  previousClose :: "num option"

definition state0 :: state where
  "state0 = \<lparr> interval = Today, currentPrice = None, chartData = chart0,
              yesterdayClose = None, previousClose = None \<rparr>"

text \<open>A message of the kline stream: \<^verbatim>\<open>k.t\<close> is the open time of the bucket,
  \<^verbatim>\<open>k.c\<close> its close price.\<close>

record wsMessage =
  k_t :: int
  k_c :: string

definition liveLabel :: "host \<Rightarrow> int \<Rightarrow> string" where
  "liveLabel H t = pad2 (getHours H t) @ '':'' @ pad2 (getMinutes H t)"

text \<open>\<^verbatim>\<open>ws.onmessage\<close>. The handler is a closure of the effect that opened the socket:
  \<open>iv\<close> and \<open>pc\<close> are the \<^verbatim>\<open>interval\<close> and \<^verbatim>\<open>previousClose\<close> of the render in
  which that effect ran.\<close>

definition onmessage :: "host \<Rightarrow> ivl \<Rightarrow> num option \<Rightarrow> wsMessage \<Rightarrow> state \<Rightarrow> state" where
  "onmessage H iv pc msg s =
     (let closePrice = parseFloat H (k_c msg) in
        s \<lparr> currentPrice := Some closePrice,
            chartData := liveUpdate iv pc (liveLabel H (k_t msg)) closePrice (chartData s) \<rparr>)"

subsection \<open>Requests to the klines endpoint\<close>

text \<open>
  Both fetches build a URL for the same endpoint and symbol; a request is the tuple of
  its remaining query parameters. The exchange is outside the repository: a response
  is either a failure (\<^verbatim>\<open>fetch\<close> rejects or \<^verbatim>\<open>response.ok\<close> is false; both end in
  the \<^verbatim>\<open>catch\<close> block) or the array of rows.
\<close>

record request =
  q_interval :: string
  q_startTime :: "int option"
  q_endTime :: "int option"
  q_limit :: nat

datatype response = Failed | Rows "kline list"

record timeConfig =
  startTime :: int
  endTime :: int
  apiInterval :: string
  intervalMs :: int

definition getTimeConfig :: "host \<Rightarrow> int \<Rightarrow> ivl \<Rightarrow> timeConfig" where
  "getTimeConfig H now iv =
     (case iv of
        Today \<Rightarrow> \<lparr> startTime = startOfDay H now, endTime = endOfDay H (startOfDay H now),
                   apiInterval = ''1m'', intervalMs = 60000 \<rparr>
      | Week \<Rightarrow> \<lparr> startTime = now - (7 * 24 * 60 * 60 * 1000), endTime = now,
                  apiInterval = ''1h'', intervalMs = 3600000 \<rparr>
      | Month \<Rightarrow> \<lparr> startTime = now - (30 * 24 * 60 * 60 * 1000), endTime = now,
                   apiInterval = ''4h'', intervalMs = 14400000 \<rparr>
      | ThreeMonths \<Rightarrow> \<lparr> startTime = now - (90 * 24 * 60 * 60 * 1000), endTime = now,
                         apiInterval = ''1d'', intervalMs = 86400000 \<rparr>
      | YearToDate \<Rightarrow> \<lparr> startTime = startOfYear H now, endTime = now,
                        apiInterval = ''1d'', intervalMs = 86400000 \<rparr>
      | Year \<Rightarrow> \<lparr> startTime = now - (365 * 24 * 60 * 60 * 1000), endTime = now,
                  apiInterval = ''1d'', intervalMs = 86400000 \<rparr>)"

subsection \<open>HistoricalFetcher: the batch loop of \<^verbatim>\<open>fetchHistoricalData\<close>\<close>

definition batchSize :: nat where
  "batchSize = 1000"

definition pageRequest :: "string \<Rightarrow> int \<Rightarrow> int \<Rightarrow> int \<Rightarrow> request" where
  "pageRequest api ms endT currentStartTime =
     \<lparr> q_interval = api,
       q_startTime = Some currentStartTime,
       q_endTime = Some (min (currentStartTime + int batchSize * ms) endT),
       q_limit = batchSize \<rparr>"

datatype fetchError = FetchFailed

text \<open>
  The \<^verbatim>\<open>while\<close> loop. The exchange \<open>src\<close> answers the \<open>n\<close>-th request of the loop
  (counted from 0), so its answers may change while the loop runs. The loop need not
  terminate for every exchange (rows whose open time lies before the cursor move the
  cursor backwards), hence the result is optional and \<open>None\<close> means that the loop
  never returns. The list \<open>sent\<close> records the requests issued; the program does not
  keep it.
\<close>

partial_function (option) fetchLoop ::
  "(nat \<Rightarrow> request \<Rightarrow> response) \<Rightarrow> string \<Rightarrow> int \<Rightarrow> int \<Rightarrow> int \<Rightarrow> kline list \<Rightarrow> request list
     \<Rightarrow> (fetchError + kline list \<times> request list) option" where
  "fetchLoop src api ms endT currentStartTime allData sent =
     (if currentStartTime < endT then
        (case src (length sent) (pageRequest api ms endT currentStartTime) of
           Failed \<Rightarrow> Some (Inl FetchFailed)
         | Rows batchData \<Rightarrow>
             if batchData = [] then
               Some (Inr (allData, sent @ [pageRequest api ms endT currentStartTime]))
             else
               fetchLoop src api ms endT (openTime (last batchData) + ms)
                 (allData @ batchData) (sent @ [pageRequest api ms endT currentStartTime]))
      else Some (Inr (allData, sent)))"

definition fetchAll ::
  "host \<Rightarrow> (nat \<Rightarrow> request \<Rightarrow> response) \<Rightarrow> int \<Rightarrow> ivl \<Rightarrow> (fetchError + kline list \<times> request list) option" where
  "fetchAll H src now iv =
     fetchLoop src (apiInterval (getTimeConfig H now iv)) (intervalMs (getTimeConfig H now iv))
       (endTime (getTimeConfig H now iv)) (startTime (getTimeConfig H now iv)) [] []"

text \<open>What \<^verbatim>\<open>fetchHistoricalData\<close> does with the outcome of the loop: the \<^verbatim>\<open>catch\<close>
  block only logs, otherwise \<^verbatim>\<open>setChartData\<close> replaces the chart. \<open>iv\<close> and \<open>pc\<close>
  are the \<^verbatim>\<open>interval\<close> and \<^verbatim>\<open>previousClose\<close> of the render that started the call.\<close>

definition historyDone :: "host \<Rightarrow> ivl \<Rightarrow> num option \<Rightarrow> fetchError + kline list \<Rightarrow> state \<Rightarrow> state" where
  "historyDone H iv pc outcome s =
     (case outcome of
        Inl e \<Rightarrow> s
      | Inr dat \<Rightarrow> s \<lparr> chartData := initialChart iv pc (build H iv dat) \<rparr>)"

definition fetchHistoricalData ::
  "host \<Rightarrow> (nat \<Rightarrow> request \<Rightarrow> response) \<Rightarrow> int \<Rightarrow> ivl \<Rightarrow> num option \<Rightarrow> state \<Rightarrow> state option" where
  "fetchHistoricalData H src now iv pc s =
     map_option (\<lambda>r. historyDone H iv pc (map_sum id fst r) s) (fetchAll H src now iv)"

text \<open>An exchange that holds the candles \<open>market\<close> and answers a request with the rows
  whose open time lies in the requested range, at most \<^verbatim>\<open>limit\<close> of them, oldest
  first. The range is closed when \<open>incl\<close> holds and half-open (end excluded)
  otherwise.\<close>

definition inRange :: "bool \<Rightarrow> request \<Rightarrow> int \<Rightarrow> bool" where
  "inRange incl rq t =
     ((case q_startTime rq of None \<Rightarrow> True | Some a \<Rightarrow> a \<le> t)
      \<and> (case q_endTime rq of None \<Rightarrow> True | Some b \<Rightarrow> if incl then t \<le> b else t < b))"

definition exchange :: "bool \<Rightarrow> kline list \<Rightarrow> nat \<Rightarrow> request \<Rightarrow> response" where
  "exchange incl market n rq = Rows (take (q_limit rq) (filter (\<lambda>k. inRange incl rq (openTime k)) market))"

text \<open>The buckets of a window: \<open>n\<close> consecutive candles of width \<open>ms\<close>, the first
  opening at \<open>t0\<close>, with close prices \<open>c\<close>.\<close>

definition buckets :: "int \<Rightarrow> int \<Rightarrow> (nat \<Rightarrow> string) \<Rightarrow> nat \<Rightarrow> kline list" where
  "buckets t0 ms c n = map (\<lambda>i. \<lparr> openTime = t0 + int i * ms, close = c i \<rparr>) [0..<n]"

subsection \<open>BaselineResolver: \<^verbatim>\<open>fetchPreviousClose\<close>\<close>

definition previousCloseRequest :: "host \<Rightarrow> int \<Rightarrow> ivl \<Rightarrow> request" where
  "previousCloseRequest H now iv =
     (case iv of
        Today \<Rightarrow> \<lparr> q_interval = ''1d'', q_startTime = None, q_endTime = None, q_limit = 2 \<rparr>
      | Week \<Rightarrow> \<lparr> q_interval = ''1h'', q_startTime = Some (now - (7 * 24 * 60 * 60 * 1000)),
                  q_endTime = Some now, q_limit = 1000 \<rparr>
      | Month \<Rightarrow> \<lparr> q_interval = ''4h'', q_startTime = Some (now - (30 * 24 * 60 * 60 * 1000)),
                   q_endTime = Some now, q_limit = 1000 \<rparr>
      | ThreeMonths \<Rightarrow> \<lparr> q_interval = ''1d'', q_startTime = Some (now - (90 * 24 * 60 * 60 * 1000)),
                         q_endTime = Some now, q_limit = 1000 \<rparr>
      | YearToDate \<Rightarrow> \<lparr> q_interval = ''1d'', q_startTime = Some (startOfYear H now),
                        q_endTime = Some now, q_limit = 1000 \<rparr>
      | Year \<Rightarrow> \<lparr> q_interval = ''1d'', q_startTime = Some (now - (365 * 24 * 60 * 60 * 1000)),
                  q_endTime = Some now, q_limit = 1000 \<rparr>)"

text \<open>\<^verbatim>\<open>data[i] && data[i][4] ? parseFloat(data[i][4]) : null\<close>; the index may be negative
  (\<^verbatim>\<open>data.length - 2\<close>), and a row outside the array reads as \<^verbatim>\<open>undefined\<close>.\<close>

definition rowClose :: "host \<Rightarrow> kline list \<Rightarrow> int \<Rightarrow> num option" where
  "rowClose H dat i =
     (if 0 \<le> i \<and> i < int (length dat) \<and> close (dat ! nat i) \<noteq> []
      then Some (parseFloat H (close (dat ! nat i)))
      else None)"

definition previousClosePrice :: "host \<Rightarrow> ivl \<Rightarrow> kline list \<Rightarrow> num option" where
  "previousClosePrice H iv dat =
     (if iv = Today then rowClose H dat (int (length dat) - 2)
      else if List.member [Week, Month, ThreeMonths, YearToDate, Year] iv then rowClose H dat 0
      else rowClose H dat (int (length dat) - 2))"

text \<open>The continuation of \<^verbatim>\<open>fetchPreviousClose\<close> after its request has been answered;
  \<open>iv\<close> is the \<^verbatim>\<open>interval\<close> of the render that started the call.\<close>

definition fetchPreviousClose :: "host \<Rightarrow> ivl \<Rightarrow> response \<Rightarrow> state \<Rightarrow> state" where
  "fetchPreviousClose H iv r s =
     (case r of
        Failed \<Rightarrow> s
      | Rows dat \<Rightarrow>
          (case previousClosePrice H iv dat of
             None \<Rightarrow> s
           | Some p \<Rightarrow>
               if truthy p
               then s \<lparr> previousClose := Some p,
                        yesterdayClose := (if iv = Today then Some p else yesterdayClose s) \<rparr>
               else s))"

subsection \<open>The component as a transition system\<close>

text \<open>
  The hooks of the component, as React runs them. An effect runs after the render in
  which one of its dependencies changed: \<^verbatim>\<open>fetchPreviousClose\<close> depends on
  \<^verbatim>\<open>interval\<close>; \<^verbatim>\<open>fetchHistoricalData\<close> and the socket effect depend on \<^verbatim>\<open>interval\<close>
  and \<^verbatim>\<open>previousClose\<close>. Only the socket effect has a cleanup (it closes the socket);
  the two fetch effects return none and use no abort signal, so a call that has been
  started stays in flight until it is answered. A call in flight is the closure of the
  render that started it.
\<close>

datatype call = BaselineCall ivl | HistoryCall ivl "num option"

record app =
  st :: state
  inflight :: "call list"
  socket :: "(ivl \<times> num option) option"

definition runEffects :: "state \<Rightarrow> app \<Rightarrow> app" where
  "runEffects old a =
     a \<lparr> inflight := inflight a
           @ (if interval (st a) \<noteq> interval old then [BaselineCall (interval (st a))] else [])
           @ (if interval (st a) \<noteq> interval old \<or> previousClose (st a) \<noteq> previousClose old
              then [HistoryCall (interval (st a)) (previousClose (st a))] else []),
         socket := (if interval (st a) \<noteq> interval old \<or> previousClose (st a) \<noteq> previousClose old
                    then (if interval (st a) = Today then Some (Today, previousClose (st a)) else None)
                    else socket a) \<rparr>"

text \<open>After the first render every effect runs once.\<close>

definition mounted :: app where
  "mounted = \<lparr> st = state0,
               inflight = [BaselineCall Today, HistoryCall Today None],
               socket = Some (Today, None) \<rparr>"

datatype event =
    Select ivl
  | BaselineAnswered nat response
  | HistoryAnswered nat "fetchError + kline list"
  | Message wsMessage

definition without :: "nat \<Rightarrow> 'a list \<Rightarrow> 'a list" where
  "without k xs = take k xs @ drop (Suc k) xs"

text \<open>One event: a button click, the completion of the \<open>k\<close>-th call in flight, or a
  message on the open socket. An event that is not enabled leaves the application as
  it is.\<close>

definition step :: "host \<Rightarrow> event \<Rightarrow> app \<Rightarrow> app" where
  "step H e a =
     (case e of
        Select iv \<Rightarrow> runEffects (st a) (a \<lparr> st := (st a) \<lparr> interval := iv \<rparr> \<rparr>)
      | BaselineAnswered k r \<Rightarrow>
          (if k < length (inflight a) then
             (case inflight a ! k of
                BaselineCall iv \<Rightarrow>
                  runEffects (st a)
                    (a \<lparr> st := fetchPreviousClose H iv r (st a), inflight := without k (inflight a) \<rparr>)
              | HistoryCall iv pc \<Rightarrow> a)
           else a)
      | HistoryAnswered k outcome \<Rightarrow>
          (if k < length (inflight a) then
             (case inflight a ! k of
                HistoryCall iv pc \<Rightarrow>
                  runEffects (st a)
                    (a \<lparr> st := historyDone H iv pc outcome (st a), inflight := without k (inflight a) \<rparr>)
              | BaselineCall iv \<Rightarrow> a)
           else a)
      | Message msg \<Rightarrow>
          (case socket a of
             Some (iv, pc) \<Rightarrow> a \<lparr> st := onmessage H iv pc msg (st a) \<rparr>
           | None \<Rightarrow> a))"

fun run :: "host \<Rightarrow> event list \<Rightarrow> app \<Rightarrow> app" where
  "run H [] a = a"
| "run H (e # es) a = run H es (step H e a)"

text \<open>The requests that the loop has added to \<open>sent\<close>, giving \<open>sent'\<close>, were all
  answered with rows.\<close>

definition answered :: "(nat \<Rightarrow> request \<Rightarrow> response) \<Rightarrow> request list \<Rightarrow> request list \<Rightarrow> bool" where
  "answered src sent sent' \<longleftrightarrow>
     length sent \<le> length sent'
     \<and> (\<forall>n. length sent \<le> n \<and> n < length sent' \<longrightarrow> src n (sent' ! n) \<noteq> Failed)
     \<and> take (length sent) sent' = sent"


text \<open>An exchange that answers the first request of the loop with one candle and fails
  on every later one.\<close>

definition failSecond :: "nat \<Rightarrow> request \<Rightarrow> response" where
  "failSecond n rq = (if n = 0 then Rows [\<lparr> openTime = 0, close = ''100'' \<rparr>] else Failed)"

subsection \<open>Concrete states of the examples\<close>

text \<open>A week chart with one candle; no minute label is among its labels.\<close>

definition weekState :: "host \<Rightarrow> state" where
  "weekState H = historyDone H Week None (Inr [\<lparr> openTime = 0, close = ''100'' \<rparr>]) state0"

text \<open>A \<^verbatim>\<open>parseFloat\<close> for the two decimal strings of the examples, and the UTC host with
  it.\<close>

definition parseDemo :: "string \<Rightarrow> num" where
  "parseDemo s = (if s = ''105'' then Num 105 else if s = ''100'' then Num 100 else NaN)"

definition demoHost :: host where
  "demoHost = utc_host parseDemo"

text \<open>Today's chart when the history fetch returned no candle and the baseline is
  still absent.\<close>

definition emptyToday :: state where
  "emptyToday = historyDone demoHost Today None (Inr []) state0"

text \<open>Today's chart built from one candle of 00:01 with close 100, with baseline 100;
  then an update for the bucket of 00:00 with close 105.\<close>

definition oneCandle :: chart where
  "oneCandle = initialChart Today (Some (Num 100))
     (build demoHost Today [\<lparr> openTime = 60000, close = ''100'' \<rparr>])"

definition lateUpdate :: chart where
  "lateUpdate = liveUpdate Today (Some (Num 100)) (liveLabel demoHost 0) (Num 105) oneCandle"

text \<open>The first message of the stream on that chart, handled by the socket opened
  while the baseline is absent.\<close>

definition firstTick :: state where
  "firstTick = onmessage demoHost Today None \<lparr> k_t = 0, k_c = ''105'' \<rparr> emptyToday"

text \<open>Two runs of the component. In \<open>staleRun\<close> the user switches to the week
  while Today's two calls are in flight, and both are answered afterwards (the daily
  rows close at 100 and 105; the history is empty). In \<open>carryRun\<close> Today's
  baseline is answered first and the user switches to the week afterwards.\<close>

definition dailyRows :: "kline list" where
  "dailyRows = [\<lparr> openTime = 0, close = ''100'' \<rparr>, \<lparr> openTime = 86400000, close = ''105'' \<rparr>]"

definition staleRun :: app where
  "staleRun = run demoHost
     [Select Week, BaselineAnswered 0 (Rows dailyRows), HistoryAnswered 0 (Inr [])] mounted"

definition carryRun :: app where
  "carryRun = run demoHost [BaselineAnswered 0 (Rows dailyRows), Select Week] mounted"

section \<open>Facts about the series builder\<close>

lemma pad2_two_digits: "n < 100 \<Longrightarrow> pad2 n = [digit_char (n div 10), digit_char (n mod 10)]"
proof (cases "n < 10")
  case True
  then show ?thesis
    by (simp add: pad2_def padStart_def toString.simps [of n] digit_char_def)
next
  case False
  assume "n < 100"
  with False have small: "n div 10 < 10" by simp
  from False have "toString n = toString (n div 10) @ [digit_char (n mod 10)]"
    by (subst toString.simps) simp
  also from small have "toString (n div 10) = [digit_char (n div 10)]"
    by (subst toString.simps) simp
  finally show ?thesis
    by (simp add: pad2_def padStart_def)
qed

lemma timeLabel_hhmm: "h < 24 \<Longrightarrow> m < 60 \<Longrightarrow> timeLabel h m = hhmm h m"
  by (simp add: timeLabel_def hhmm_def pad2_two_digits)

lemma grid_by_index:
  "concat (map (\<lambda>h. map (\<lambda>m. (h, m)) [0..<b]) [0..<a]) = map (\<lambda>i. (i div b, i mod b)) [0..<a * b]"
proof (induction a)
  case 0
  show ?case by simp
next
  case (Suc a)
  have row: "map (\<lambda>m. (a, m)) [0..<b] = map (\<lambda>i. (i div b, i mod b)) [a * b..<a * b + b]"
  proof (rule nth_equalityI)
    show "length (map (\<lambda>m. (a, m)) [0..<b]) = length (map (\<lambda>i. (i div b, i mod b)) [a * b..<a * b + b])"
      by simp
  next
    fix i assume "i < length (map (\<lambda>m. (a, m)) [0..<b])"
    then have i: "i < b" by simp
    then show "map (\<lambda>m. (a, m)) [0..<b] ! i = map (\<lambda>i. (i div b, i mod b)) [a * b..<a * b + b] ! i"
      by simp
  qed
  have "Suc a * b = a * b + b" by simp
  then have split: "[0..<Suc a * b] = [0..<a * b] @ [a * b..<a * b + b]"
    by (simp only: upt_add_eq_append [OF le0])
  have "concat (map (\<lambda>h. map (\<lambda>m. (h, m)) [0..<b]) [0..<Suc a])
        = concat (map (\<lambda>h. map (\<lambda>m. (h, m)) [0..<b]) [0..<a]) @ map (\<lambda>m. (a, m)) [0..<b]"
    by simp
  also have "\<dots> = map (\<lambda>i. (i div b, i mod b)) [0..<a * b] @ map (\<lambda>i. (i div b, i mod b)) [a * b..<a * b + b]"
    by (simp only: Suc.IH row)
  also have "\<dots> = map (\<lambda>i. (i div b, i mod b)) [0..<Suc a * b]"
    by (simp only: split map_append)
  finally show ?case .
qed

lemma todaySlots_by_index: "todaySlots = map (\<lambda>i. (i div 60, i mod 60)) [0..<1440]"
proof -
  have "(24::nat) * 60 = 1440" by simp
  then show ?thesis
    unfolding todaySlots_def using grid_by_index [of 60 24] by (simp only:)
qed

lemma today_labels: "map (\<lambda>(hour, minute). timeLabel hour minute) todaySlots
    = map (\<lambda>i. hhmm (i div 60) (i mod 60)) [0..<1440]"
proof -
  have "map (\<lambda>(hour, minute). timeLabel hour minute) todaySlots
      = map (\<lambda>i. timeLabel (i div 60) (i mod 60)) [0..<1440]"
    by (simp only: todaySlots_by_index map_map comp_def prod.case)
  also have "\<dots> = map (\<lambda>i. hhmm (i div 60) (i mod 60)) [0..<1440]"
  proof (rule map_cong [OF refl])
    fix i :: nat assume "i \<in> set [0..<1440]"
    then have "i div 60 < 24" "i mod 60 < 60" by auto
    then show "timeLabel (i div 60) (i mod 60) = hhmm (i div 60) (i mod 60)"
      by (rule timeLabel_hhmm)
  qed
  finally show ?thesis .
qed

lemma today_prices: "map (\<lambda>(hour, minute). slotPrice H dat hour minute) todaySlots
    = map (\<lambda>i. slotPrice H dat (i div 60) (i mod 60)) [0..<1440]"
  by (simp only: todaySlots_by_index map_map comp_def prod.case)

lemma today_labels_Cons: "fst (build H Today dat) = ''00:00'' # tl (fst (build H Today dat))"
proof -
  have ne: "[0..<1440::nat] \<noteq> []"
    by (simp only: upt_eq_Nil_conv) simp
  have l: "fst (build H Today dat) = map (\<lambda>i. hhmm (i div 60) (i mod 60)) [0..<1440]"
    by (simp add: build_def today_labels)
  have "hd [0..<1440::nat] = 0" by (rule hd_upt) simp
  then have "hd (fst (build H Today dat)) = hhmm (0 div 60) (0 mod 60)"
    by (simp only: l hd_map [OF ne])
  then have h: "hd (fst (build H Today dat)) = ''00:00''"
    by (simp add: hhmm_def digit_char_def)
  from l ne have "fst (build H Today dat) \<noteq> []"
    by (simp only: map_is_Nil_conv) simp
  then have "fst (build H Today dat) = hd (fst (build H Today dat)) # tl (fst (build H Today dat))"
    by simp
  with h show ?thesis by simp
qed

lemma today_prices_nth:
  "i < 1440 \<Longrightarrow> snd (build H Today dat) ! i = slotPrice H dat (i div 60) (i mod 60)"
proof -
  assume i: "i < 1440"
  have p: "snd (build H Today dat) = map (\<lambda>i. slotPrice H dat (i div 60) (i mod 60)) [0..<1440]"
    by (simp add: build_def today_prices)
  from i show ?thesis
    by (simp only: p) simp
qed

lemma today_lengths: "length (fst (build H Today dat)) = 1440" "length (snd (build H Today dat)) = 1440"
  by (simp_all add: build_def today_labels today_prices)

lemma liveLabel_utc_0: "liveLabel (utc_host pf) 0 = ''00:00''"
  by (simp add: liveLabel_def utc_host_def pad2_two_digits digit_char_def)

text \<open>
  Claim C1. For the Today interval and every list of candles (empty, partial or a full
  day), \<open>build\<close> returns the 1440 labels "00:00" to "23:59" in order (slot \<open>i\<close> is
  minute \<open>i mod 60\<close> of hour \<open>i div 60\<close>) and as many prices; the price of a slot is the
  parsed close of the first candle whose local hour and minute are those of the slot,
  and \<open>null\<close> when no candle matches.
\<close>

theorem build_today_grid:
  "fst (build H Today dat) = map (\<lambda>i. hhmm (i div 60) (i mod 60)) [0..<1440]
   \<and> snd (build H Today dat) =
       map (\<lambda>i. case find (\<lambda>k. getHours H (openTime k) = i div 60 \<and> getMinutes H (openTime k) = i mod 60) dat of
                  Some k \<Rightarrow> Val (parseFloat H (close k))
                | None \<Rightarrow> Null) [0..<1440]
   \<and> length (fst (build H Today dat)) = 1440
   \<and> length (snd (build H Today dat)) = 1440
   \<and> hd (fst (build H Today dat)) = ''00:00''
   \<and> last (fst (build H Today dat)) = ''23:59''"
proof -
  have l: "fst (build H Today dat) = map (\<lambda>i. hhmm (i div 60) (i mod 60)) [0..<1440]"
    by (simp add: build_def today_labels)
  have p: "snd (build H Today dat) = map (\<lambda>i. slotPrice H dat (i div 60) (i mod 60)) [0..<1440]"
    by (simp add: build_def today_prices)
  have p': "snd (build H Today dat) =
       map (\<lambda>i. case find (\<lambda>k. getHours H (openTime k) = i div 60 \<and> getMinutes H (openTime k) = i mod 60) dat of
                  Some k \<Rightarrow> Val (parseFloat H (close k))
                | None \<Rightarrow> Null) [0..<1440]"
    unfolding p slotPrice_def matchingKline_def by (rule refl)
  have ne: "[0..<1440::nat] \<noteq> []"
    by (simp only: upt_eq_Nil_conv) simp
  have "hd (map (\<lambda>i. hhmm (i div 60) (i mod 60)) [0..<1440]) = hhmm (0 div 60) (0 mod 60)"
  proof -
    have "hd [0..<1440::nat] = 0" by (rule hd_upt) simp
    then show ?thesis by (simp only: hd_map [OF ne])
  qed
  then have h: "hd (fst (build H Today dat)) = ''00:00''"
    by (simp add: l hhmm_def digit_char_def del: upt_rec_numeral)
  have "last (map (\<lambda>i. hhmm (i div 60) (i mod 60)) [0..<1440]) = hhmm (1439 div 60) (1439 mod 60)"
  proof -
    have "last [0..<1440::nat] = 1440 - 1" by (rule last_upt) simp
    then have "last [0..<1440::nat] = 1439" by simp
    then show ?thesis by (simp only: last_map [OF ne])
  qed
  then have e: "last (fst (build H Today dat)) = ''23:59''"
    by (simp add: l hhmm_def digit_char_def del: upt_rec_numeral)
  have n1: "length (fst (build H Today dat)) = 1440"
    by (simp only: l length_map length_upt)
  have n2: "length (snd (build H Today dat)) = 1440"
    by (simp only: p length_map length_upt)
  from l p' n1 n2 h e show ?thesis
    by blast
qed

section \<open>Facts about the presentation attributes\<close>


lemma gt_irrefl: "\<not> gt x x"
  by (cases x) simp_all

lemma indexOf_None_iff: "indexOf xs x = None \<longleftrightarrow> x \<notin> set xs"
  by (induction xs) auto

lemma indexOf_Some_nth: "indexOf xs x = Some i \<Longrightarrow> i < length xs \<and> xs ! i = x"
proof (induction xs arbitrary: i)
  case Nil
  then show ?case by simp
next
  case (Cons y ys)
  show ?case
  proof (cases "y = x")
    case True
    with Cons.prems show ?thesis by simp
  next
    case False
    with Cons.prems obtain j where j: "indexOf ys x = Some j" "i = Suc j"
      by auto
    from Cons.IH [OF j(1)] j(2) show ?thesis by simp
  qed
qed

lemma indexOf_head: "indexOf (x # xs) x = Some 0"
  by simp

lemma findLastIndex_snoc:
  "findLastIndex P (xs @ [x]) = (if P x then Some (length xs) else findLastIndex P xs)"
proof -
  have "find (\<lambda>i. P ((xs @ [x]) ! i)) (rev [0..<length xs]) = find (\<lambda>i. P (xs ! i)) (rev [0..<length xs])"
    by (rule find_cong) (auto simp: nth_append)
  then show ?thesis
    by (simp add: findLastIndex_def)
qed

lemma findLastIndex_Some_iff:
  "findLastIndex P xs = Some i \<longleftrightarrow>
     i < length xs \<and> P (xs ! i) \<and> (\<forall>j. i < j \<and> j < length xs \<longrightarrow> \<not> P (xs ! j))"
proof (induction xs rule: rev_induct)
  case Nil
  show ?case by (simp add: findLastIndex_def)
next
  case (snoc x xs)
  show ?case
  proof (cases "P x")
    case True
    have "i = length xs \<longleftrightarrow>
        i < Suc (length xs) \<and> P ((xs @ [x]) ! i) \<and> (\<forall>j. i < j \<and> j < Suc (length xs) \<longrightarrow> \<not> P ((xs @ [x]) ! j))"
    proof
      assume "i = length xs"
      with True show "i < Suc (length xs) \<and> P ((xs @ [x]) ! i) \<and> (\<forall>j. i < j \<and> j < Suc (length xs) \<longrightarrow> \<not> P ((xs @ [x]) ! j))"
        by auto
    next
      assume r: "i < Suc (length xs) \<and> P ((xs @ [x]) ! i) \<and> (\<forall>j. i < j \<and> j < Suc (length xs) \<longrightarrow> \<not> P ((xs @ [x]) ! j))"
      show "i = length xs"
      proof (rule ccontr)
        assume "i \<noteq> length xs"
        with r have "i < length xs" by simp
        with r have "\<not> P ((xs @ [x]) ! length xs)" by blast
        with True show False by simp
      qed
    qed
    with True show ?thesis
      by (simp add: findLastIndex_snoc eq_commute [of "length xs" i])
  next
    case False
    have "(i < length xs \<and> P (xs ! i) \<and> (\<forall>j. i < j \<and> j < length xs \<longrightarrow> \<not> P (xs ! j))) \<longleftrightarrow>
        (i < Suc (length xs) \<and> P ((xs @ [x]) ! i) \<and> (\<forall>j. i < j \<and> j < Suc (length xs) \<longrightarrow> \<not> P ((xs @ [x]) ! j)))"
      (is "?l \<longleftrightarrow> ?r")
    proof
      assume l: ?l
      have "\<not> P ((xs @ [x]) ! j)" if "i < j" "j < Suc (length xs)" for j
      proof (cases "j < length xs")
        case True
        with l that show ?thesis by (simp add: nth_append)
      next
        case False
        with that have "j = length xs" by simp
        with \<open>\<not> P x\<close> show ?thesis by simp
      qed
      with l show ?r by (simp add: nth_append)
    next
      assume r: ?r
      have i: "i < length xs"
      proof (rule ccontr)
        assume "\<not> i < length xs"
        with r have "i = length xs" by simp
        with r \<open>\<not> P x\<close> show False by simp
      qed
      have "\<not> P (xs ! j)" if "i < j" "j < length xs" for j
      proof -
        from r that have "\<not> P ((xs @ [x]) ! j)" by simp
        with that show ?thesis by (simp add: nth_append)
      qed
      with r i show ?l by (simp add: nth_append)
    qed
    with False snoc.IH show ?thesis
      by (simp add: findLastIndex_snoc)
  qed
qed

lemma filter_last_nonabsent:
  "i < length xs \<Longrightarrow> P (xs ! i) \<Longrightarrow> (\<And>j. i < j \<Longrightarrow> j < length xs \<Longrightarrow> \<not> P (xs ! j))
    \<Longrightarrow> filter P xs \<noteq> [] \<and> last (filter P xs) = xs ! i"
proof (induction xs rule: rev_induct)
  case Nil
  then show ?case by simp
next
  case (snoc x xs)
  show ?case
  proof (cases "i = length xs")
    case True
    with snoc.prems show ?thesis by simp
  next
    case False
    with snoc.prems(1) have i: "i < length xs" by simp
    from snoc.prems(3) [of "length xs"] i have nx: "\<not> P x" by simp
    have "\<not> P (xs ! j)" if "i < j" "j < length xs" for j
      using snoc.prems(3) [of j] that by (simp add: nth_append)
    moreover from snoc.prems(2) i have "P (xs ! i)" by (simp add: nth_append)
    ultimately have "filter P xs \<noteq> [] \<and> last (filter P xs) = xs ! i"
      using snoc.IH i by blast
    with nx i show ?thesis by (simp add: nth_append)
  qed
qed

lemma lastValidPrice_eq:
  assumes "i < length ps" "ps ! i \<noteq> Null" "\<And>j. i < j \<Longrightarrow> j < length ps \<Longrightarrow> ps ! j = Null"
  shows "lastValidPrice ps = Some (ps ! i)"
proof -
  have "filter notNull ps \<noteq> [] \<and> last (filter notNull ps) = ps ! i"
    by (rule filter_last_nonabsent) (use assms in \<open>auto simp: notNull_def\<close>)
  then show ?thesis
    by (auto simp: lastValidPrice_def split: list.splits)
qed

lemma findLastIndex_notNull:
  assumes "i < length ps" "ps ! i \<noteq> Null" "\<And>j. i < j \<Longrightarrow> j < length ps \<Longrightarrow> ps ! j = Null"
  shows "findLastIndex notNull ps = Some i"
  using assms by (simp add: findLastIndex_Some_iff notNull_def)

lemma liveUpdate_unmatched: "ts \<notin> set (labels prev) \<Longrightarrow> liveUpdate iv pc ts cp prev = prev"
  by (simp add: liveUpdate_def indexOf_None_iff [THEN iffD2])



subsection \<open>The initial path\<close>

lemma initial_radius_iff:
  "radiusAt (initialChart iv pc (ls, ps)) i = Some 6 \<longleftrightarrow>
     i < length ps \<and> ps ! i \<noteq> Null \<and> (\<forall>j. i < j \<and> j < length ps \<longrightarrow> ps ! j = Null)"
  by (simp add: radiusAt_def initialChart_def initialPointRadius_def findLastIndex_Some_iff notNull_def)

lemma initial_radius_cases:
  "radiusAt (initialChart iv pc (ls, ps)) i = Some 6 \<or> radiusAt (initialChart iv pc (ls, ps)) i = Some 0"
  by (simp add: radiusAt_def initialChart_def initialPointRadius_def)

lemma initial_neutral_line: "lineColor (initialChart iv None lp) = Some gray"
  by (simp add: lineColor_def initialChart_def initialBorderColor_def split: option.splits)

lemma initial_neutral_marker:
  "findLastIndex notNull (snd lp) = Some i \<Longrightarrow> markerColorAt (initialChart iv None lp) i = Some gray"
  by (simp add: markerColorAt_def initialChart_def initialPointBackgroundColor_def
      findLastIndex_Some_iff notNull_def)

lemma initial_tie:
  assumes "truthy b" "i < length ps" "ps ! i = Val b"
    and "\<And>j. i < j \<Longrightarrow> j < length ps \<Longrightarrow> ps ! j = Null"
  shows "lineColor (initialChart iv (Some b) (ls, ps)) = Some red"
    and "markerColorAt (initialChart iv (Some b) (ls, ps)) i = Some red"
proof -
  from assms have lv: "lastValidPrice ps = Some (Val b)"
    using lastValidPrice_eq [of i ps] by simp
  from assms have fl: "findLastIndex notNull ps = Some i"
    using findLastIndex_notNull [of i ps] by simp
  from lv assms(1) show "lineColor (initialChart iv (Some b) (ls, ps)) = Some red"
    by (simp add: lineColor_def initialChart_def initialBorderColor_def cellGt_def toNumber_def gt_irrefl)
  from fl assms(2,3) show "markerColorAt (initialChart iv (Some b) (ls, ps)) i = Some red"
    by (auto simp add: markerColorAt_def initialChart_def initialPointBackgroundColor_def cellGt_def
        toNumber_def gt_irrefl)
qed

subsection \<open>The live path\<close>

lemma liveUpdate_matched:
  "indexOf (labels prev) ts = Some k \<Longrightarrow>
   liveUpdate iv pc ts cp prev =
     \<lparr> labels = labels prev,
       main = (main prev)
         \<lparr> data := assign (data (main prev)) k (Val cp),
           pointRadius := Some (livePointRadius k),
           pointBackgroundColor := Some (livePointBackgroundColor pc cp k),
           pointBorderColor := Some (livePointBorderColor k),
           borderColor := Some (liveBorderColor pc cp) \<rparr>,
       reference = referenceLine iv pc (length (labels prev)) \<rparr>"
  by (simp add: liveUpdate_def)

lemma live_radius:
  "indexOf (labels prev) ts = Some k \<Longrightarrow>
   radiusAt (liveUpdate iv pc ts cp prev) i = Some (if i = k then 6 else 0)"
  by (simp add: liveUpdate_matched radiusAt_def livePointRadius_def)

lemma live_line:
  "indexOf (labels prev) ts = Some k \<Longrightarrow>
   lineColor (liveUpdate iv pc ts cp prev) = Some (liveBorderColor pc cp)"
  by (simp add: liveUpdate_matched lineColor_def)

lemma live_marker:
  "indexOf (labels prev) ts = Some k \<Longrightarrow>
   markerColorAt (liveUpdate iv pc ts cp prev) i = Some (livePointBackgroundColor pc cp k i)"
  by (simp add: liveUpdate_matched markerColorAt_def)

lemma live_data:
  "indexOf (labels prev) ts = Some k \<Longrightarrow>
   data (main (liveUpdate iv pc ts cp prev)) = assign (data (main prev)) k (Val cp)"
  by (simp add: liveUpdate_matched)

lemma live_labels: "labels (liveUpdate iv pc ts cp prev) = labels prev"
  by (simp add: liveUpdate_def split: option.splits)

subsection \<open>The charts of the examples\<close>

lemma liveLabel_demo_0: "liveLabel demoHost 0 = ''00:00''"
  by (simp add: demoHost_def liveLabel_utc_0)

lemma indexOf_today_midnight: "indexOf (fst (build H Today dat)) ''00:00'' = Some 0"
  by (subst today_labels_Cons) (simp only: indexOf_head)

lemma emptyToday_chart: "chartData emptyToday = initialChart Today None (build demoHost Today [])"
  by (simp add: emptyToday_def historyDone_def)

lemma emptyToday_prices: "j < 1440 \<Longrightarrow> snd (build H Today []) ! j = Null"
  by (simp add: today_prices_nth slotPrice_def matchingKline_def)

lemma oneCandle_prices:
  "j < 1440 \<Longrightarrow>
   snd (build demoHost Today [\<lparr> openTime = 60000, close = ''100'' \<rparr>]) ! j
     = (if j = 1 then Val (Num 100) else Null)"
proof -
  assume j: "j < 1440"
  have "(0 = j div 60 \<and> Suc 0 = j mod 60) \<longleftrightarrow> j = 1"
    by auto
  with j show ?thesis
    by (simp add: today_prices_nth slotPrice_def matchingKline_def demoHost_def utc_host_def
        parseDemo_def)
qed


section \<open>Facts about the stream handler\<close>


lemma onmessage_unmatched:
  "liveLabel H (k_t msg) \<notin> set (labels (chartData s))
    \<Longrightarrow> onmessage H iv pc msg s = s \<lparr> currentPrice := Some (parseFloat H (k_c msg)) \<rparr>"
  by (simp add: onmessage_def liveUpdate_unmatched)

lemma onmessage_currentPrice:
  "currentPrice (onmessage H iv pc msg s) = Some (parseFloat H (k_c msg))"
  by (simp add: onmessage_def Let_def)

text \<open>
  Claim C7. An update whose bucket open time, formatted as HH:MM, is not a label of the
  current series leaves the chart data (labels, prices and every presentation
  attribute) as it was: the handler changes nothing but the current price.
\<close>

theorem unmatched_update_discarded:
  assumes "liveLabel H (k_t msg) \<notin> set (labels (chartData s))"
  shows "chartData (onmessage H iv pc msg s) = chartData s
    \<and> onmessage H iv pc msg s = s \<lparr> currentPrice := Some (parseFloat H (k_c msg)) \<rparr>"
  using assms by (simp add: onmessage_unmatched)


lemma weekState_labels: "labels (chartData (weekState (utc_host pf))) = [''01/01 00:00'']"
  by (simp add: weekState_def historyDone_def initialChart_def build_def klineLabel_def
      utc_host_def pad2_two_digits digit_char_def)


theorem unmatched_update_discarded_witness:
  "liveLabel (utc_host (\<lambda>s. Num 105)) (k_t \<lparr> k_t = 0, k_c = ''105'' \<rparr>)
      \<notin> set (labels (chartData (weekState (utc_host (\<lambda>s. Num 105)))))
   \<and> chartData (onmessage (utc_host (\<lambda>s. Num 105)) Today None \<lparr> k_t = 0, k_c = ''105'' \<rparr>
        (weekState (utc_host (\<lambda>s. Num 105))))
     = chartData (weekState (utc_host (\<lambda>s. Num 105)))"
proof -
  have h: "liveLabel (utc_host (\<lambda>s. Num 105)) (k_t \<lparr> k_t = 0, k_c = ''105'' \<rparr>)
      \<notin> set (labels (chartData (weekState (utc_host (\<lambda>s. Num 105)))))"
    by (simp add: weekState_labels liveLabel_utc_0)
  from unmatched_update_discarded [OF h, of Today None] h show ?thesis
    by simp
qed

text \<open>
  Claim C10. Every message delivered on the open socket sets the current price to the
  parsed close price of the message, whether or not its label is found; a message whose
  label is not found changes the current price and leaves the chart data as it was.
\<close>

theorem message_sets_current_price:
  assumes "socket a = Some (iv, pc)"
  shows "currentPrice (st (step H (Message msg) a)) = Some (parseFloat H (k_c msg))
    \<and> (liveLabel H (k_t msg) \<notin> set (labels (chartData (st a)))
        \<longrightarrow> chartData (st (step H (Message msg) a)) = chartData (st a)
          \<and> st (step H (Message msg) a) = (st a) \<lparr> currentPrice := Some (parseFloat H (k_c msg)) \<rparr>)"
  using assms by (simp add: step_def onmessage_unmatched onmessage_currentPrice)

theorem message_sets_current_price_witness:
  "socket mounted = Some (Today, None)
   \<and> currentPrice (st mounted) = None
   \<and> liveLabel (utc_host (\<lambda>s. Num 105)) (k_t \<lparr> k_t = 0, k_c = ''105'' \<rparr>) \<notin> set (labels (chartData (st mounted)))
   \<and> currentPrice (st (step (utc_host (\<lambda>s. Num 105)) (Message \<lparr> k_t = 0, k_c = ''105'' \<rparr>) mounted)) = Some (Num 105)
   \<and> chartData (st (step (utc_host (\<lambda>s. Num 105)) (Message \<lparr> k_t = 0, k_c = ''105'' \<rparr>) mounted)) = chartData (st mounted)"
proof -
  have h: "socket mounted = Some (Today, None)"
    by (simp add: mounted_def)
  have l: "liveLabel (utc_host (\<lambda>s. Num 105)) (k_t \<lparr> k_t = 0, k_c = ''105'' \<rparr>) \<notin> set (labels (chartData (st mounted)))"
    by (simp add: mounted_def state0_def chart0_def)
  have c: "currentPrice (st mounted) = None"
    by (simp add: mounted_def state0_def)
  from message_sets_current_price [OF h, of "utc_host (\<lambda>s. Num 105)" "\<lparr> k_t = 0, k_c = ''105'' \<rparr>"] l
  have "currentPrice (st (step (utc_host (\<lambda>s. Num 105)) (Message \<lparr> k_t = 0, k_c = ''105'' \<rparr>) mounted)) = Some (Num 105)"
    and "chartData (st (step (utc_host (\<lambda>s. Num 105)) (Message \<lparr> k_t = 0, k_c = ''105'' \<rparr>) mounted)) = chartData (st mounted)"
    by (simp_all add: utc_host_def)
  with h l c show ?thesis
    by simp
qed


section \<open>Ties, the absent baseline and the marker on the two paths\<close>


text \<open>
  Claim C2, evaluated on the live path. The socket handler of the first render holds
  \<^verbatim>\<open>previousClose = null\<close>. On Today's grid its first message (bucket 00:00, close 105)
  gives the gray line but the green marker at the updated slot, since
  \<^verbatim>\<open>closePrice > previousClose\<close> is evaluated without the \<^verbatim>\<open>null\<close> test and \<^verbatim>\<open>null\<close>
  converts to 0. The initial path yields gray for both.
\<close>

theorem live_marker_without_baseline:
  "previousClose firstTick = None
   \<and> lineColor (chartData emptyToday) = Some gray
   \<and> lineColor (chartData firstTick) = Some gray
   \<and> radiusAt (chartData firstTick) 0 = Some 6
   \<and> markerColorAt (chartData firstTick) 0 = Some green
   \<and> green \<noteq> gray
   \<and> st (run demoHost [HistoryAnswered 1 (Inr []), Message \<lparr> k_t = 0, k_c = ''105'' \<rparr>] mounted) = firstTick"
proof -
  have chart: "chartData firstTick
      = liveUpdate Today None ''00:00'' (Num 105) (chartData emptyToday)"
    by (simp add: firstTick_def onmessage_def Let_def liveLabel_demo_0)
      (simp add: demoHost_def utc_host_def parseDemo_def)
  have idx: "indexOf (labels (chartData emptyToday)) ''00:00'' = Some 0"
    by (simp add: emptyToday_chart initialChart_def indexOf_today_midnight)
  have 1: "previousClose firstTick = None"
    by (simp add: firstTick_def onmessage_def Let_def emptyToday_def historyDone_def state0_def)
  have 2: "lineColor (chartData emptyToday) = Some gray"
    by (simp add: emptyToday_chart initial_neutral_line)
  have 3: "lineColor (chartData firstTick) = Some gray"
    by (simp add: chart live_line [OF idx] liveBorderColor_def)
  have 4: "radiusAt (chartData firstTick) 0 = Some 6"
    by (simp add: chart live_radius [OF idx])
  have 5: "markerColorAt (chartData firstTick) 0 = Some green"
    by (simp add: chart live_marker [OF idx] livePointBackgroundColor_def gt_nullable_def toNumber_def)
  have 6: "green \<noteq> gray"
    by (simp add: green_def gray_def)
  have 7: "st (run demoHost [HistoryAnswered 1 (Inr []), Message \<lparr> k_t = 0, k_c = ''105'' \<rparr>] mounted) = firstTick"
    by (simp add: step_def mounted_def runEffects_def without_def firstTick_def emptyToday_def
        historyDone_def)
  from 1 2 3 4 5 6 7 show ?thesis by blast
qed



lemma assign_in_range: "k < length xs \<Longrightarrow> assign xs k v = xs[k := v]"
  by (simp add: assign_def)

lemma merged_last_index:
  assumes "k < length xs" and "\<And>j. k < j \<Longrightarrow> j < length xs \<Longrightarrow> xs ! j = Null"
  shows "findLastIndex notNull (assign xs k (Val cp)) = Some k"
    and "lastValidPrice (assign xs k (Val cp)) = Some (Val cp)"
proof -
  have n: "assign xs k (Val cp) = xs[k := Val cp]"
    using assms(1) by (rule assign_in_range)
  have later: "xs[k := Val cp] ! j = Null" if "k < j" "j < length (xs[k := Val cp])" for j
    using that assms(2) [of j] by simp
  show "findLastIndex notNull (assign xs k (Val cp)) = Some k"
    unfolding n by (rule findLastIndex_notNull) (use assms(1) later in auto)
  have "lastValidPrice (xs[k := Val cp]) = Some (xs[k := Val cp] ! k)"
    by (rule lastValidPrice_eq) (use assms(1) later in auto)
  with assms(1) show "lastValidPrice (assign xs k (Val cp)) = Some (Val cp)"
    unfolding n by simp
qed

lemma paths_agree:
  fixes iv :: ivl and pc :: "num option" and ts :: string and cp :: num and prev :: chart
  assumes idx: "indexOf (labels prev) ts = Some k"
    and len: "length (data (main prev)) = length (labels prev)"
    and later: "\<And>j. k < j \<Longrightarrow> j < length (data (main prev)) \<Longrightarrow> data (main prev) ! j = Null"
    and pc: "pc \<noteq> None"
    and cp: "truthy cp"
  defines "c \<equiv> liveUpdate iv pc ts cp prev"
  defines "c' \<equiv> initialChart iv pc (labels c, data (main c))"
  shows "pointRadius (main c) = pointRadius (main c')"
    and "pointBackgroundColor (main c) = pointBackgroundColor (main c')"
    and "pointBorderColor (main c) = pointBorderColor (main c')"
    and "borderColor (main c) = borderColor (main c')"
    and "reference c = reference c'"
proof -
  from indexOf_Some_nth [OF idx] len have k: "k < length (data (main prev))"
    by simp
  note fl = merged_last_index(1) [OF k later, of cp]
  note lv = merged_last_index(2) [OF k later, of cp]
  have d: "data (main c) = assign (data (main prev)) k (Val cp)"
    unfolding c_def by (rule live_data [OF idx])
  have at_k: "assign (data (main prev)) k (Val cp) ! k = Val cp"
    using k by (simp add: assign_def)
  have ne: "0 < length (assign (data (main prev)) k (Val cp))"
    using k by (auto simp add: assign_def)
  show "pointRadius (main c) = pointRadius (main c')"
    unfolding c'_def d unfolding c_def
    by (simp add: liveUpdate_matched [OF idx] initialChart_def fun_eq_iff livePointRadius_def
        initialPointRadius_def fl eq_commute)
  show "pointBackgroundColor (main c) = pointBackgroundColor (main c')"
    unfolding c'_def d unfolding c_def
    using at_k ne pc
    by (simp add: liveUpdate_matched [OF idx] initialChart_def fun_eq_iff livePointBackgroundColor_def
        initialPointBackgroundColor_def fl cellGt_def gt_nullable_def eq_commute)
  show "pointBorderColor (main c) = pointBorderColor (main c')"
    unfolding c'_def d unfolding c_def
    using at_k
    by (simp add: liveUpdate_matched [OF idx] initialChart_def fun_eq_iff livePointBorderColor_def
        initialPointBorderColor_def fl eq_commute)
  show "borderColor (main c) = borderColor (main c')"
    unfolding c'_def d unfolding c_def
    using pc cp
    by (simp add: liveUpdate_matched [OF idx] initialChart_def liveBorderColor_def
        initialBorderColor_def lv cellGt_def gt_nullable_def)
  show "reference c = reference c'"
    unfolding c'_def c_def
    by (simp add: liveUpdate_matched [OF idx] initialChart_def)
qed



text \<open>
  Claim C3 fails as stated. On Today's chart built from one candle of 00:01 (close 100,
  baseline 100), an update for the bucket of 00:00 (close 105) puts the marker on slot
  0 although the last non-absent price is in slot 1, and colours the line green
  although the initial path colours the same series and baseline red.
\<close>

theorem marker_not_at_last_price:
  "findLastIndex notNull (data (main lateUpdate)) = Some 1
   \<and> radiusAt lateUpdate 1 = Some 0
   \<and> radiusAt lateUpdate 0 = Some 6
   \<and> lineColor lateUpdate = Some green
   \<and> lineColor (initialChart Today (Some (Num 100)) (labels lateUpdate, data (main lateUpdate))) = Some red
   \<and> green \<noteq> red"
proof -
  let ?ps = "snd (build demoHost Today [\<lparr> openTime = 60000, close = ''100'' \<rparr>])"
  have idx: "indexOf (labels oneCandle) (liveLabel demoHost 0) = Some 0"
    by (simp add: oneCandle_def initialChart_def liveLabel_demo_0 indexOf_today_midnight)
  have d: "data (main lateUpdate) = ?ps[0 := Val (Num 105)]"
    unfolding lateUpdate_def live_data [OF idx]
    by (simp add: oneCandle_def initialChart_def assign_def today_lengths)
  have len: "length (?ps[0 := Val (Num 105)]) = 1440"
    by (simp add: today_lengths)
  have at1: "?ps[0 := Val (Num 105)] ! 1 = Val (Num 100)"
    by (simp add: oneCandle_prices)
  have later: "?ps[0 := Val (Num 105)] ! j = Null" if "1 < j" "j < length (?ps[0 := Val (Num 105)])" for j
    using that by (simp add: today_lengths oneCandle_prices)
  have fl: "findLastIndex notNull (?ps[0 := Val (Num 105)]) = Some 1"
    by (rule findLastIndex_notNull) (use len at1 later in auto)
  have "lastValidPrice (?ps[0 := Val (Num 105)]) = Some (?ps[0 := Val (Num 105)] ! 1)"
    by (rule lastValidPrice_eq) (use len at1 later in auto)
  with at1 have lv: "lastValidPrice (?ps[0 := Val (Num 105)]) = Some (Val (Num 100))"
    by simp
  have 1: "findLastIndex notNull (data (main lateUpdate)) = Some 1"
    by (simp only: d fl)
  have 2: "radiusAt lateUpdate 1 = Some 0" and 3: "radiusAt lateUpdate 0 = Some 6"
    unfolding lateUpdate_def by (simp_all add: live_radius [OF idx])
  have 4: "lineColor lateUpdate = Some green"
    unfolding lateUpdate_def
    by (simp add: live_line [OF idx] liveBorderColor_def gt_nullable_def toNumber_def)
  have 5: "lineColor (initialChart Today (Some (Num 100)) (labels lateUpdate, data (main lateUpdate))) = Some red"
    by (simp add: lineColor_def initialChart_def initialBorderColor_def d lv cellGt_def toNumber_def)
  have 6: "green \<noteq> red"
    by (simp add: green_def red_def)
  from 1 2 3 4 5 6 show ?thesis by blast
qed

text \<open>
  Claim C3, amended. The two paths compute the presentation separately. After the
  initial pass exactly the last non-absent index has marker radius 6 and every other
  index 0. After a merge exactly the updated slot has radius 6 and every other index 0,
  and the colours compare the close price of the update with the baseline: with a
  baseline \<open>b\<close> the line and the marker of the updated slot are green when the close
  price is greater than \<open>b\<close> and red otherwise, every other marker is transparent,
  and with no baseline the line is gray. When the updated slot is the last non-absent
  slot of the merged series, the baseline is present and the close price is truthy,
  the live path and the initial path give the same radius, marker colours, line
  colour and reference line for the merged series and the baseline.
\<close>

theorem presentation_per_path:
  "(radiusAt (initialChart iv pc (ls, ps)) i = Some 6 \<longleftrightarrow>
      i < length ps \<and> ps ! i \<noteq> Null \<and> (\<forall>j. i < j \<and> j < length ps \<longrightarrow> ps ! j = Null))
   \<and> (radiusAt (initialChart iv pc (ls, ps)) i = Some 6 \<or> radiusAt (initialChart iv pc (ls, ps)) i = Some 0)
   \<and> (indexOf (labels prev) ts = Some k
        \<longrightarrow> radiusAt (liveUpdate iv pc ts cp prev) i = Some (if i = k then 6 else 0))
   \<and> (indexOf (labels prev) ts = Some k
        \<longrightarrow> lineColor (liveUpdate iv (Some b) ts cp prev) = Some (if gt cp b then green else red)
          \<and> markerColorAt (liveUpdate iv (Some b) ts cp prev) i
              = Some (if i = k then (if gt cp b then green else red) else transparent)
          \<and> lineColor (liveUpdate iv None ts cp prev) = Some gray)
   \<and> (indexOf (labels prev) ts = Some k
        \<and> length (data (main prev)) = length (labels prev)
        \<and> (\<forall>j. k < j \<and> j < length (data (main prev)) \<longrightarrow> data (main prev) ! j = Null)
        \<and> pc \<noteq> None \<and> truthy cp
        \<longrightarrow> pointRadius (main (liveUpdate iv pc ts cp prev))
              = pointRadius (main (initialChart iv pc
                  (labels (liveUpdate iv pc ts cp prev), data (main (liveUpdate iv pc ts cp prev)))))
          \<and> pointBackgroundColor (main (liveUpdate iv pc ts cp prev))
              = pointBackgroundColor (main (initialChart iv pc
                  (labels (liveUpdate iv pc ts cp prev), data (main (liveUpdate iv pc ts cp prev)))))
          \<and> pointBorderColor (main (liveUpdate iv pc ts cp prev))
              = pointBorderColor (main (initialChart iv pc
                  (labels (liveUpdate iv pc ts cp prev), data (main (liveUpdate iv pc ts cp prev)))))
          \<and> borderColor (main (liveUpdate iv pc ts cp prev))
              = borderColor (main (initialChart iv pc
                  (labels (liveUpdate iv pc ts cp prev), data (main (liveUpdate iv pc ts cp prev)))))
          \<and> reference (liveUpdate iv pc ts cp prev)
              = reference (initialChart iv pc
                  (labels (liveUpdate iv pc ts cp prev), data (main (liveUpdate iv pc ts cp prev)))))"
proof (intro conjI impI)
  show "radiusAt (initialChart iv pc (ls, ps)) i = Some 6 \<longleftrightarrow>
      i < length ps \<and> ps ! i \<noteq> Null \<and> (\<forall>j. i < j \<and> j < length ps \<longrightarrow> ps ! j = Null)"
    by (rule initial_radius_iff)
  show "radiusAt (initialChart iv pc (ls, ps)) i = Some 6 \<or> radiusAt (initialChart iv pc (ls, ps)) i = Some 0"
    by (rule initial_radius_cases)
next
  assume "indexOf (labels prev) ts = Some k"
  then show "radiusAt (liveUpdate iv pc ts cp prev) i = Some (if i = k then 6 else 0)"
    by (rule live_radius)
next
  assume idx: "indexOf (labels prev) ts = Some k"
  show "lineColor (liveUpdate iv (Some b) ts cp prev) = Some (if gt cp b then green else red)"
    by (simp add: live_line [OF idx] liveBorderColor_def gt_nullable_def toNumber_def)
  show "markerColorAt (liveUpdate iv (Some b) ts cp prev) i
      = Some (if i = k then (if gt cp b then green else red) else transparent)"
    by (simp add: live_marker [OF idx] livePointBackgroundColor_def gt_nullable_def toNumber_def)
  show "lineColor (liveUpdate iv None ts cp prev) = Some gray"
    by (simp add: live_line [OF idx] liveBorderColor_def)
next
  assume a: "indexOf (labels prev) ts = Some k
        \<and> length (data (main prev)) = length (labels prev)
        \<and> (\<forall>j. k < j \<and> j < length (data (main prev)) \<longrightarrow> data (main prev) ! j = Null)
        \<and> pc \<noteq> None \<and> truthy cp"
  then have idx: "indexOf (labels prev) ts = Some k"
    and len: "length (data (main prev)) = length (labels prev)"
    and later: "\<And>j. k < j \<Longrightarrow> j < length (data (main prev)) \<Longrightarrow> data (main prev) ! j = Null"
    and pc: "pc \<noteq> None" and cp: "truthy cp"
    by blast+
  note ag = paths_agree [OF idx len later pc cp]
  show "pointRadius (main (liveUpdate iv pc ts cp prev))
      = pointRadius (main (initialChart iv pc
          (labels (liveUpdate iv pc ts cp prev), data (main (liveUpdate iv pc ts cp prev)))))"
    by (rule ag(1))
  show "pointBackgroundColor (main (liveUpdate iv pc ts cp prev))
      = pointBackgroundColor (main (initialChart iv pc
          (labels (liveUpdate iv pc ts cp prev), data (main (liveUpdate iv pc ts cp prev)))))"
    by (rule ag(2))
  show "pointBorderColor (main (liveUpdate iv pc ts cp prev))
      = pointBorderColor (main (initialChart iv pc
          (labels (liveUpdate iv pc ts cp prev), data (main (liveUpdate iv pc ts cp prev)))))"
    by (rule ag(3))
  show "borderColor (main (liveUpdate iv pc ts cp prev))
      = borderColor (main (initialChart iv pc
          (labels (liveUpdate iv pc ts cp prev), data (main (liveUpdate iv pc ts cp prev)))))"
    by (rule ag(4))
  show "reference (liveUpdate iv pc ts cp prev)
      = reference (initialChart iv pc
          (labels (liveUpdate iv pc ts cp prev), data (main (liveUpdate iv pc ts cp prev))))"
    by (rule ag(5))
qed

text \<open>The amended claim on Today's empty grid with baseline 100: the update of 00:00
  with close 105 marks slot 0 and colours the line and that marker green; it is the
  last non-absent slot, so the two paths agree on the merged series.\<close>

theorem presentation_per_path_witness:
  "indexOf (labels (chartData emptyToday)) ''00:00'' = Some 0
   \<and> length (data (main (chartData emptyToday))) = length (labels (chartData emptyToday))
   \<and> truthy (Num 105)
   \<and> radiusAt (liveUpdate Today (Some (Num 100)) ''00:00'' (Num 105) (chartData emptyToday)) 0 = Some 6
   \<and> radiusAt (liveUpdate Today (Some (Num 100)) ''00:00'' (Num 105) (chartData emptyToday)) 1 = Some 0
   \<and> lineColor (liveUpdate Today (Some (Num 100)) ''00:00'' (Num 105) (chartData emptyToday)) = Some green
   \<and> markerColorAt (liveUpdate Today (Some (Num 100)) ''00:00'' (Num 105) (chartData emptyToday)) 0 = Some green
   \<and> markerColorAt (liveUpdate Today (Some (Num 100)) ''00:00'' (Num 105) (chartData emptyToday)) 1
       = Some transparent
   \<and> lineColor (liveUpdate Today None ''00:00'' (Num 105) (chartData emptyToday)) = Some gray
   \<and> borderColor (main (liveUpdate Today (Some (Num 100)) ''00:00'' (Num 105) (chartData emptyToday)))
       = borderColor (main (initialChart Today (Some (Num 100))
           (labels (liveUpdate Today (Some (Num 100)) ''00:00'' (Num 105) (chartData emptyToday)),
            data (main (liveUpdate Today (Some (Num 100)) ''00:00'' (Num 105) (chartData emptyToday))))))
   \<and> pointBackgroundColor (main (liveUpdate Today (Some (Num 100)) ''00:00'' (Num 105) (chartData emptyToday)))
       = pointBackgroundColor (main (initialChart Today (Some (Num 100))
           (labels (liveUpdate Today (Some (Num 100)) ''00:00'' (Num 105) (chartData emptyToday)),
            data (main (liveUpdate Today (Some (Num 100)) ''00:00'' (Num 105) (chartData emptyToday))))))"
proof -
  let ?prev = "chartData emptyToday"
  let ?c = "liveUpdate Today (Some (Num 100)) ''00:00'' (Num 105) ?prev"
  have idx: "indexOf (labels ?prev) ''00:00'' = Some 0"
    by (simp add: emptyToday_chart initialChart_def indexOf_today_midnight)
  have len: "length (data (main ?prev)) = length (labels ?prev)"
    by (simp add: emptyToday_chart initialChart_def today_lengths)
  have later: "\<forall>j. 0 < j \<and> j < length (data (main ?prev)) \<longrightarrow> data (main ?prev) ! j = Null"
    by (simp add: emptyToday_chart initialChart_def today_lengths emptyToday_prices)
  have pc: "Some (Num 100) \<noteq> None" by simp
  have cp: "truthy (Num 105)" by simp
  have g: "gt (Num 105) (Num 100)" by simp
  note t = presentation_per_path [where iv = Today and pc = "Some (Num 100)" and ls = "[]" and ps = "[]"
      and prev = ?prev and ts = "''00:00''" and k = 0 and cp = "Num 105" and b = "Num 100"]
  note radius = t [THEN conjunct2, THEN conjunct2, THEN conjunct1, THEN mp, OF idx]
  note colours = t [THEN conjunct2, THEN conjunct2, THEN conjunct2, THEN conjunct1, THEN mp, OF idx]
  have r0: "radiusAt ?c 0 = Some 6"
    using radius [of 0] by simp
  have r1: "radiusAt ?c 1 = Some 0"
    using radius [of 1] by simp
  have l: "lineColor ?c = Some green"
    using colours [of 0, THEN conjunct1] g by simp
  have m0: "markerColorAt ?c 0 = Some green"
    using colours [of 0, THEN conjunct2, THEN conjunct1] g by simp
  have m1: "markerColorAt ?c 1 = Some transparent"
    using colours [of 1, THEN conjunct2, THEN conjunct1] by simp
  have n: "lineColor (liveUpdate Today None ''00:00'' (Num 105) ?prev) = Some gray"
    by (rule colours [of 0, THEN conjunct2, THEN conjunct2])
  from t [of 0] idx len later pc cp
  have agree: "borderColor (main ?c)
       = borderColor (main (initialChart Today (Some (Num 100)) (labels ?c, data (main ?c))))"
    "pointBackgroundColor (main ?c)
       = pointBackgroundColor (main (initialChart Today (Some (Num 100)) (labels ?c, data (main ?c))))"
    by blast+
  show ?thesis
    by (intro conjI)
      (rule idx, rule len, rule cp, rule r0, rule r1, rule l, rule m0, rule m1, rule n,
       rule agree(1), rule agree(2))
qed


subsection \<open>Ties\<close>

text \<open>
  Claim C8 fails as stated on the live path. On the chart of \<open>lateUpdate\<close> (one
  candle of 00:01 with close 100, baseline 100, then an update for 00:00 with close
  105) the last non-absent price equals the baseline, yet the line and the marker are
  green: the live path compares the close price of the update, not the last
  non-absent price.
\<close>

theorem tie_ignored_by_late_update:
  "lastValidPrice (data (main lateUpdate)) = Some (Val (Num 100))
   \<and> reference lateUpdate = Some \<lparr> refLabel = ''Yesterday Close'', refData = replicate 1440 (Num 100) \<rparr>
   \<and> lineColor lateUpdate = Some green
   \<and> markerColorAt lateUpdate 0 = Some green
   \<and> radiusAt lateUpdate 0 = Some 6
   \<and> green \<noteq> red"
proof -
  let ?ps = "snd (build demoHost Today [\<lparr> openTime = 60000, close = ''100'' \<rparr>])"
  have idx: "indexOf (labels oneCandle) (liveLabel demoHost 0) = Some 0"
    by (simp add: oneCandle_def initialChart_def liveLabel_demo_0 indexOf_today_midnight)
  have d: "data (main lateUpdate) = ?ps[0 := Val (Num 105)]"
    unfolding lateUpdate_def live_data [OF idx]
    by (simp add: oneCandle_def initialChart_def assign_def today_lengths)
  have len: "length (?ps[0 := Val (Num 105)]) = 1440"
    by (simp add: today_lengths)
  have at1: "?ps[0 := Val (Num 105)] ! 1 = Val (Num 100)"
    by (simp add: oneCandle_prices)
  have later: "?ps[0 := Val (Num 105)] ! j = Null" if "1 < j" "j < length (?ps[0 := Val (Num 105)])" for j
    using that by (simp add: today_lengths oneCandle_prices)
  have "lastValidPrice (?ps[0 := Val (Num 105)]) = Some (?ps[0 := Val (Num 105)] ! 1)"
    by (rule lastValidPrice_eq) (use len at1 later in auto)
  with at1 have 1: "lastValidPrice (data (main lateUpdate)) = Some (Val (Num 100))"
    by (simp only: d)
  have "reference lateUpdate = referenceLine Today (Some (Num 100)) (length (labels oneCandle))"
    unfolding lateUpdate_def by (simp add: liveUpdate_matched [OF idx])
  moreover have "length (labels oneCandle) = 1440"
    by (simp add: oneCandle_def initialChart_def today_lengths)
  ultimately
  have 2: "reference lateUpdate = Some \<lparr> refLabel = ''Yesterday Close'', refData = replicate 1440 (Num 100) \<rparr>"
    by (simp add: referenceLine_def closeLabel_def)
  have 3: "lineColor lateUpdate = Some green"
    unfolding lateUpdate_def
    by (simp add: live_line [OF idx] liveBorderColor_def gt_nullable_def toNumber_def)
  have 4: "markerColorAt lateUpdate 0 = Some green"
    unfolding lateUpdate_def
    by (simp add: live_marker [OF idx] livePointBackgroundColor_def gt_nullable_def toNumber_def)
  have 5: "radiusAt lateUpdate 0 = Some 6"
    unfolding lateUpdate_def by (simp add: live_radius [OF idx])
  have 6: "green \<noteq> red"
    by (simp add: green_def red_def)
  show ?thesis
    by (intro conjI) (rule 1, rule 2, rule 3, rule 4, rule 5, rule 6)
qed

text \<open>
  Claim C8, amended. A tie is "down" for the price that each path compares. With a
  baseline \<open>b\<close> (a stored baseline is always truthy, see \<open>fetchPreviousClose\<close>): on
  the initial path a series whose last non-absent price is \<open>b\<close> gets the red line
  and the red marker at that index; on the live path an update with close price \<open>b\<close>
  gets the red line and the red marker at the updated slot; and when the updated slot
  is the last non-absent slot of the merged series and the last non-absent price of
  the merged series is \<open>b\<close>, the line and the marker are red.
\<close>

theorem tie_counts_as_down:
  assumes "truthy b"
  shows "(i < length ps \<and> ps ! i = Val b \<and> (\<forall>j. i < j \<and> j < length ps \<longrightarrow> ps ! j = Null)
          \<longrightarrow> lineColor (initialChart iv (Some b) (ls, ps)) = Some red
            \<and> markerColorAt (initialChart iv (Some b) (ls, ps)) i = Some red)
       \<and> (indexOf (labels prev) ts = Some k \<and> k < length (data (main prev))
          \<longrightarrow> data (main (liveUpdate iv (Some b) ts b prev)) ! k = Val b
            \<and> lineColor (liveUpdate iv (Some b) ts b prev) = Some red
            \<and> markerColorAt (liveUpdate iv (Some b) ts b prev) k = Some red)
       \<and> (indexOf (labels prev) ts = Some k \<and> k < length (data (main prev))
          \<and> (\<forall>j. k < j \<and> j < length (data (main prev)) \<longrightarrow> data (main prev) ! j = Null)
          \<and> lastValidPrice (data (main (liveUpdate iv (Some b) ts cp prev))) = Some (Val b)
          \<longrightarrow> lineColor (liveUpdate iv (Some b) ts cp prev) = Some red
            \<and> markerColorAt (liveUpdate iv (Some b) ts cp prev) k = Some red)"
proof (intro conjI impI)
  assume a: "i < length ps \<and> ps ! i = Val b \<and> (\<forall>j. i < j \<and> j < length ps \<longrightarrow> ps ! j = Null)"
  with assms show "lineColor (initialChart iv (Some b) (ls, ps)) = Some red"
    using initial_tie(1) [of b i ps iv ls] by blast
  from a assms show "markerColorAt (initialChart iv (Some b) (ls, ps)) i = Some red"
    using initial_tie(2) [of b i ps iv ls] by blast
next
  assume a: "indexOf (labels prev) ts = Some k \<and> k < length (data (main prev))"
  then show "data (main (liveUpdate iv (Some b) ts b prev)) ! k = Val b"
    by (simp add: live_data assign_def)
  from a show "lineColor (liveUpdate iv (Some b) ts b prev) = Some red"
    by (simp add: live_line liveBorderColor_def gt_nullable_def toNumber_def gt_irrefl)
  from a show "markerColorAt (liveUpdate iv (Some b) ts b prev) k = Some red"
    by (simp add: live_marker livePointBackgroundColor_def gt_nullable_def toNumber_def gt_irrefl)
next
  assume a: "indexOf (labels prev) ts = Some k \<and> k < length (data (main prev))
      \<and> (\<forall>j. k < j \<and> j < length (data (main prev)) \<longrightarrow> data (main prev) ! j = Null)
      \<and> lastValidPrice (data (main (liveUpdate iv (Some b) ts cp prev))) = Some (Val b)"
  then have idx: "indexOf (labels prev) ts = Some k" and k: "k < length (data (main prev))"
    and later: "\<And>j. k < j \<Longrightarrow> j < length (data (main prev)) \<Longrightarrow> data (main prev) ! j = Null"
    and lv: "lastValidPrice (data (main (liveUpdate iv (Some b) ts cp prev))) = Some (Val b)"
    by blast+
  from lv have "lastValidPrice (assign (data (main prev)) k (Val cp)) = Some (Val b)"
    by (simp only: live_data [OF idx])
  with merged_last_index(2) [OF k later, of cp] have cp: "cp = b"
    by simp
  show "lineColor (liveUpdate iv (Some b) ts cp prev) = Some red"
    unfolding cp
    by (simp add: live_line [OF idx] liveBorderColor_def gt_nullable_def toNumber_def gt_irrefl)
  show "markerColorAt (liveUpdate iv (Some b) ts cp prev) k = Some red"
    unfolding cp
    by (simp add: live_marker [OF idx] livePointBackgroundColor_def gt_nullable_def toNumber_def gt_irrefl)
qed

theorem tie_counts_as_down_witness:
  "truthy (Num 100)
   \<and> lineColor (initialChart Today (Some (Num 100))
        (build demoHost Today [\<lparr> openTime = 60000, close = ''100'' \<rparr>])) = Some red
   \<and> markerColorAt (initialChart Today (Some (Num 100))
        (build demoHost Today [\<lparr> openTime = 60000, close = ''100'' \<rparr>])) 1 = Some red
   \<and> data (main (liveUpdate Today (Some (Num 100)) ''00:00'' (Num 100) (chartData emptyToday))) ! 0
        = Val (Num 100)
   \<and> lastValidPrice (data (main (liveUpdate Today (Some (Num 100)) ''00:00'' (Num 100) (chartData emptyToday))))
        = Some (Val (Num 100))
   \<and> lineColor (liveUpdate Today (Some (Num 100)) ''00:00'' (Num 100) (chartData emptyToday)) = Some red
   \<and> markerColorAt (liveUpdate Today (Some (Num 100)) ''00:00'' (Num 100) (chartData emptyToday)) 0 = Some red"
proof -
  let ?lp = "build demoHost Today [\<lparr> openTime = 60000, close = ''100'' \<rparr>]"
  let ?prev = "chartData emptyToday"
  have t: "truthy (Num 100)" by simp
  have a: "1 < length (snd ?lp) \<and> snd ?lp ! 1 = Val (Num 100)
      \<and> (\<forall>j. 1 < j \<and> j < length (snd ?lp) \<longrightarrow> snd ?lp ! j = Null)"
    by (simp add: today_lengths oneCandle_prices)
  have idx: "indexOf (labels ?prev) ''00:00'' = Some 0"
    by (simp add: emptyToday_chart initialChart_def indexOf_today_midnight)
  have k: "0 < length (data (main ?prev))"
    by (simp add: emptyToday_chart initialChart_def today_lengths)
  have later: "\<forall>j. 0 < j \<and> j < length (data (main ?prev)) \<longrightarrow> data (main ?prev) ! j = Null"
    by (simp add: emptyToday_chart initialChart_def today_lengths emptyToday_prices)
  have lv: "lastValidPrice (data (main (liveUpdate Today (Some (Num 100)) ''00:00'' (Num 100) ?prev)))
      = Some (Val (Num 100))"
    using merged_last_index(2) [OF k, of "Num 100"] later
    by (simp only: live_data [OF idx])
  have lp: "(fst ?lp, snd ?lp) = ?lp" by simp
  note r = tie_counts_as_down [OF t, of 1 "snd ?lp" Today "fst ?lp" ?prev "''00:00''" 0 "Num 100"]
  from r [THEN conjunct1, THEN mp, OF a]
  have 1: "lineColor (initialChart Today (Some (Num 100)) ?lp) = Some red"
    and 2: "markerColorAt (initialChart Today (Some (Num 100)) ?lp) 1 = Some red"
    by (simp_all only: lp)
  from r [THEN conjunct2, THEN conjunct2, THEN mp] idx k later lv
  have 3: "lineColor (liveUpdate Today (Some (Num 100)) ''00:00'' (Num 100) ?prev) = Some red"
    and 4: "markerColorAt (liveUpdate Today (Some (Num 100)) ''00:00'' (Num 100) ?prev) 0 = Some red"
    by blast+
  from r [THEN conjunct2, THEN conjunct1, THEN mp] idx k
  have 5: "data (main (liveUpdate Today (Some (Num 100)) ''00:00'' (Num 100) ?prev)) ! 0 = Val (Num 100)"
    by blast
  show ?thesis
    by (intro conjI) (rule t, rule 1, rule 2, rule 5, rule lv, rule 3, rule 4)
qed


section \<open>Facts about the baseline\<close>


lemma rowClose_nat:
  "i < length dat \<Longrightarrow> close (dat ! i) \<noteq> [] \<Longrightarrow> rowClose H dat (int i) = Some (parseFloat H (close (dat ! i)))"
  by (simp add: rowClose_def)

lemma previousClosePrice_today:
  assumes "2 \<le> length dat" "close (dat ! (length dat - 2)) \<noteq> []"
  shows "previousClosePrice H Today dat = Some (parseFloat H (close (dat ! (length dat - 2))))"
proof -
  from assms(1) have e: "int (length dat) - 2 = int (length dat - 2)"
    by linarith
  from assms(1) have "length dat - 2 < length dat"
    by linarith
  then have "rowClose H dat (int (length dat - 2)) = Some (parseFloat H (close (dat ! (length dat - 2))))"
    using assms(2) by (rule rowClose_nat)
  then show ?thesis
    by (simp only: previousClosePrice_def e simp_thms if_True)
qed

lemma previousClosePrice_other:
  assumes "iv \<noteq> Today" "dat \<noteq> []" "close (hd dat) \<noteq> []"
  shows "previousClosePrice H iv dat = Some (parseFloat H (close (hd dat)))"
proof -
  from assms(2) have "0 < length dat" "dat ! 0 = hd dat"
    by (simp_all add: hd_conv_nth)
  with assms(3) have "rowClose H dat 0 = Some (parseFloat H (close (hd dat)))"
    using rowClose_nat [of 0 dat H] by simp
  with assms(1) show ?thesis
    by (cases iv) (simp_all add: previousClosePrice_def)
qed

lemma previousCloseRequest_window:
  assumes "iv \<noteq> Today"
  shows "q_interval (previousCloseRequest H now iv) = apiInterval (getTimeConfig H now iv)"
    and "q_startTime (previousCloseRequest H now iv) = Some (startTime (getTimeConfig H now iv))"
    and "q_endTime (previousCloseRequest H now iv) = Some (endTime (getTimeConfig H now iv))"
  using assms by (cases iv; simp add: previousCloseRequest_def getTimeConfig_def)+

lemma fetchPreviousClose_stores:
  "previousClosePrice H iv dat = Some p \<Longrightarrow> truthy p
    \<Longrightarrow> previousClose (fetchPreviousClose H iv (Rows dat) s) = Some p"
  by (simp add: fetchPreviousClose_def)

lemma fetchPreviousClose_truthy:
  "previousClose (fetchPreviousClose H iv r s) = Some p \<Longrightarrow> previousClose s = Some p \<or> truthy p"
  by (auto simp: fetchPreviousClose_def split: response.splits option.splits if_splits)

text \<open>
  Claim C9. For Today the baseline request asks for daily candles with limit 2 and no
  time range, and the price taken is the parsed close of the second-to-last row. For
  every other interval the request has the granularity and the time range of that
  interval's history window, and the price taken is the parsed close of the first
  row. A price that is truthy is stored as the baseline.
\<close>

theorem baseline_rule:
  "previousCloseRequest H now Today = \<lparr> q_interval = ''1d'', q_startTime = None, q_endTime = None, q_limit = 2 \<rparr>
   \<and> (2 \<le> length dat \<and> close (dat ! (length dat - 2)) \<noteq> []
        \<longrightarrow> previousClosePrice H Today dat = Some (parseFloat H (close (dat ! (length dat - 2))))
          \<and> (truthy (parseFloat H (close (dat ! (length dat - 2))))
              \<longrightarrow> previousClose (fetchPreviousClose H Today (Rows dat) s)
                    = Some (parseFloat H (close (dat ! (length dat - 2))))))
   \<and> (iv \<noteq> Today
        \<longrightarrow> q_interval (previousCloseRequest H now iv) = apiInterval (getTimeConfig H now iv)
          \<and> q_startTime (previousCloseRequest H now iv) = Some (startTime (getTimeConfig H now iv))
          \<and> q_endTime (previousCloseRequest H now iv) = Some (endTime (getTimeConfig H now iv))
          \<and> (dat \<noteq> [] \<and> close (hd dat) \<noteq> []
              \<longrightarrow> previousClosePrice H iv dat = Some (parseFloat H (close (hd dat)))
                \<and> (truthy (parseFloat H (close (hd dat)))
                    \<longrightarrow> previousClose (fetchPreviousClose H iv (Rows dat) s)
                          = Some (parseFloat H (close (hd dat))))))"
proof (intro conjI impI)
  show "previousCloseRequest H now Today = \<lparr> q_interval = ''1d'', q_startTime = None, q_endTime = None, q_limit = 2 \<rparr>"
    by (simp add: previousCloseRequest_def)
next
  assume a: "2 \<le> length dat \<and> close (dat ! (length dat - 2)) \<noteq> []"
  then show p: "previousClosePrice H Today dat = Some (parseFloat H (close (dat ! (length dat - 2))))"
    by (simp add: previousClosePrice_today)
  assume "truthy (parseFloat H (close (dat ! (length dat - 2))))"
  with p show "previousClose (fetchPreviousClose H Today (Rows dat) s)
      = Some (parseFloat H (close (dat ! (length dat - 2))))"
    by (rule fetchPreviousClose_stores)
next
  assume iv: "iv \<noteq> Today"
  then show "q_interval (previousCloseRequest H now iv) = apiInterval (getTimeConfig H now iv)"
    and "q_startTime (previousCloseRequest H now iv) = Some (startTime (getTimeConfig H now iv))"
    and "q_endTime (previousCloseRequest H now iv) = Some (endTime (getTimeConfig H now iv))"
    by (rule previousCloseRequest_window)+
  assume "dat \<noteq> [] \<and> close (hd dat) \<noteq> []"
  with iv show p: "previousClosePrice H iv dat = Some (parseFloat H (close (hd dat)))"
    by (simp add: previousClosePrice_other)
  assume "truthy (parseFloat H (close (hd dat)))"
  with p show "previousClose (fetchPreviousClose H iv (Rows dat) s) = Some (parseFloat H (close (hd dat)))"
    by (rule fetchPreviousClose_stores)
qed




theorem baseline_rule_witness:
  "previousClosePrice demoHost Today
      [\<lparr> openTime = 0, close = ''100'' \<rparr>, \<lparr> openTime = 86400000, close = ''105'' \<rparr>] = Some (Num 100)
   \<and> previousClose (fetchPreviousClose demoHost Today
      (Rows [\<lparr> openTime = 0, close = ''100'' \<rparr>, \<lparr> openTime = 86400000, close = ''105'' \<rparr>]) state0) = Some (Num 100)
   \<and> q_interval (previousCloseRequest demoHost 86400000 Week) = ''1h''
   \<and> q_startTime (previousCloseRequest demoHost 86400000 Week) = Some (- 518400000)
   \<and> q_endTime (previousCloseRequest demoHost 86400000 Week) = Some 86400000
   \<and> previousClosePrice demoHost Week
      [\<lparr> openTime = 0, close = ''100'' \<rparr>, \<lparr> openTime = 86400000, close = ''105'' \<rparr>] = Some (Num 100)
   \<and> previousClose (fetchPreviousClose demoHost Week
      (Rows [\<lparr> openTime = 0, close = ''100'' \<rparr>, \<lparr> openTime = 86400000, close = ''105'' \<rparr>]) state0) = Some (Num 100)"
proof -
  let ?d2 = "[\<lparr> openTime = 0, close = ''100'' \<rparr>, \<lparr> openTime = 86400000, close = ''105'' \<rparr>]"
  have pf: "parseFloat demoHost ''100'' = Num 100"
    by (simp add: demoHost_def utc_host_def parseDemo_def)
  note r = baseline_rule [of demoHost 86400000 ?d2 state0 Week]
  have h1: "2 \<le> length ?d2 \<and> close (?d2 ! (length ?d2 - 2)) \<noteq> []"
    by simp
  have v1: "parseFloat demoHost (close (?d2 ! (length ?d2 - 2))) = Num 100"
    by (simp add: pf)
  have h2: "?d2 \<noteq> [] \<and> close (hd ?d2) \<noteq> []"
    by simp
  have v2: "parseFloat demoHost (close (hd ?d2)) = Num 100"
    by (simp add: pf)
  have t: "truthy (Num 100)" by simp
  have w: "Week \<noteq> Today" by simp
  note today = r [THEN conjunct2, THEN conjunct1, THEN mp, OF h1]
  note other = r [THEN conjunct2, THEN conjunct2, THEN mp, OF w]
  note rows = other [THEN conjunct2, THEN conjunct2, THEN conjunct2, THEN mp, OF h2]
  have a: "previousClosePrice demoHost Today ?d2 = Some (Num 100)"
    using today [THEN conjunct1] by (simp only: v1)
  have b: "previousClose (fetchPreviousClose demoHost Today (Rows ?d2) state0) = Some (Num 100)"
    using today [THEN conjunct2, THEN mp] t by (simp only: v1)
  have c0: "apiInterval (getTimeConfig demoHost 86400000 Week) = ''1h''"
    by (simp add: getTimeConfig_def)
  have d0: "startTime (getTimeConfig demoHost 86400000 Week) = - 518400000"
    by (simp add: getTimeConfig_def)
  have e0: "endTime (getTimeConfig demoHost 86400000 Week) = 86400000"
    by (simp add: getTimeConfig_def)
  have c: "q_interval (previousCloseRequest demoHost 86400000 Week) = ''1h''"
    using other [THEN conjunct1] by (simp only: c0)
  have d: "q_startTime (previousCloseRequest demoHost 86400000 Week) = Some (- 518400000)"
    using other [THEN conjunct2, THEN conjunct1] by (simp only: d0)
  have e: "q_endTime (previousCloseRequest demoHost 86400000 Week) = Some 86400000"
    using other [THEN conjunct2, THEN conjunct2, THEN conjunct1] by (simp only: e0)
  have f: "previousClosePrice demoHost Week ?d2 = Some (Num 100)"
    using rows [THEN conjunct1] by (simp only: v2)
  have g: "previousClose (fetchPreviousClose demoHost Week (Rows ?d2) state0) = Some (Num 100)"
    using rows [THEN conjunct2, THEN mp] t by (simp only: v2)
  show ?thesis
    by (intro conjI) (rule a, rule b, rule c, rule d, rule e, rule f, rule g)
qed


section \<open>Facts about the batch loop\<close>


subsection \<open>One iteration of the loop\<close>

lemma fetchLoop_done:
  "\<not> cur < endT \<Longrightarrow> fetchLoop src api ms endT cur acc sent = Some (Inr (acc, sent))"
  by (subst fetchLoop.simps) simp

lemma fetchLoop_failed:
  "cur < endT \<Longrightarrow> src (length sent) (pageRequest api ms endT cur) = Failed
    \<Longrightarrow> fetchLoop src api ms endT cur acc sent = Some (Inl FetchFailed)"
  by (subst fetchLoop.simps) simp

lemma fetchLoop_empty:
  "cur < endT \<Longrightarrow> src (length sent) (pageRequest api ms endT cur) = Rows []
    \<Longrightarrow> fetchLoop src api ms endT cur acc sent
        = Some (Inr (acc, sent @ [pageRequest api ms endT cur]))"
  by (subst fetchLoop.simps) simp

lemma fetchLoop_page:
  "cur < endT \<Longrightarrow> src (length sent) (pageRequest api ms endT cur) = Rows batch \<Longrightarrow> batch \<noteq> []
    \<Longrightarrow> fetchLoop src api ms endT cur acc sent
        = fetchLoop src api ms endT (openTime (last batch) + ms) (acc @ batch)
            (sent @ [pageRequest api ms endT cur])"
  by (subst fetchLoop.simps) simp

text \<open>A fetch that succeeds has had every one of its requests answered with rows.\<close>

lemma answered_refl: "answered src sent sent"
  by (auto simp: answered_def)

lemma answered_one: "src (length sent) rq \<noteq> Failed \<Longrightarrow> answered src sent (sent @ [rq])"
  by (auto simp: answered_def nth_append less_Suc_eq)

lemma answered_step:
  assumes "src (length sent) rq \<noteq> Failed" "answered src (sent @ [rq]) sent'"
  shows "answered src sent sent'"
proof -
  from assms(2) have le: "Suc (length sent) \<le> length sent'"
    and ok: "\<And>n. Suc (length sent) \<le> n \<Longrightarrow> n < length sent' \<Longrightarrow> src n (sent' ! n) \<noteq> Failed"
    and pre: "take (Suc (length sent)) sent' = sent @ [rq]"
    by (simp_all add: answered_def)
  from pre have "take (length sent) (take (Suc (length sent)) sent') = sent" by simp
  then have p: "take (length sent) sent' = sent" by (simp add: min_def)
  have "sent' ! length sent = (take (Suc (length sent)) sent') ! length sent"
    by simp
  also have "\<dots> = rq" by (simp only: pre nth_append_length)
  finally have here: "src (length sent) (sent' ! length sent) \<noteq> Failed"
    using assms(1) by simp
  have "src n (sent' ! n) \<noteq> Failed" if "length sent \<le> n" "n < length sent'" for n
  proof (cases "n = length sent")
    case True
    with here show ?thesis by simp
  next
    case False
    with that ok [of n] show ?thesis by simp
  qed
  with le p show ?thesis by (simp add: answered_def)
qed

lemma fetchLoop_success_answered:
  assumes "fetchLoop src api ms endT cur acc sent = Some y"
  shows "\<forall>dat sent'. y = Inr (dat, sent') \<longrightarrow> answered src sent sent'"
proof (rule fetchLoop.raw_induct
    [where P = "\<lambda>src api ms endT cur acc sent y. \<forall>dat sent'. y = Inr (dat, sent') \<longrightarrow> answered src sent sent'",
     OF _ assms])
  fix f :: "(nat \<Rightarrow> request \<Rightarrow> response) \<Rightarrow> string \<Rightarrow> int \<Rightarrow> int \<Rightarrow> int \<Rightarrow> kline list \<Rightarrow> request list
      \<Rightarrow> (fetchError + kline list \<times> request list) option"
  fix src api ms endT cur acc sent y
  assume IH: "\<And>src api ms endT cur acc sent y. f src api ms endT cur acc sent = Some y
      \<Longrightarrow> \<forall>dat sent'. y = Inr (dat, sent') \<longrightarrow> answered src sent sent'"
  assume eq: "(if cur < endT
      then case src (length sent) (pageRequest api ms endT cur) of
             Failed \<Rightarrow> Some (Inl FetchFailed)
           | Rows batchData \<Rightarrow>
               if batchData = []
               then Some (Inr (acc, sent @ [pageRequest api ms endT cur]))
               else f src api ms endT (openTime (last batchData) + ms) (acc @ batchData)
                      (sent @ [pageRequest api ms endT cur])
      else Some (Inr (acc, sent))) = Some y"
  let ?rq = "pageRequest api ms endT cur"
  show "\<forall>dat sent'. y = Inr (dat, sent') \<longrightarrow> answered src sent sent'"
  proof (cases "cur < endT")
    case False
    with eq show ?thesis by (auto simp: answered_refl)
  next
    case True
    show ?thesis
    proof (cases "src (length sent) ?rq")
      case Failed
      with True eq show ?thesis by auto
    next
      case (Rows batch)
      then have nf: "src (length sent) ?rq \<noteq> Failed" by simp
      show ?thesis
      proof (cases "batch = []")
        case True
        with \<open>cur < endT\<close> Rows eq have "y = Inr (acc, sent @ [?rq])" by simp
        with nf show ?thesis by (simp add: answered_one)
      next
        case False
        with \<open>cur < endT\<close> Rows eq
        have "f src api ms endT (openTime (last batch) + ms) (acc @ batch) (sent @ [?rq]) = Some y"
          by simp
        from IH [OF this] have "\<forall>dat sent'. y = Inr (dat, sent') \<longrightarrow> answered src (sent @ [?rq]) sent'" .
        with nf show ?thesis by (blast intro: answered_step)
      qed
    qed
  qed
qed

lemma historyDone_failure: "historyDone H iv pc (Inl e) s = s"
  by (simp add: historyDone_def)

lemma fetchHistoricalData_failure:
  "fetchAll H src now iv = Some (Inl e) \<Longrightarrow> fetchHistoricalData H src now iv pc s = Some s"
  by (simp add: fetchHistoricalData_def historyDone_def)



lemma filter_upt_range: "filter (\<lambda>i. a \<le> i \<and> i < b) [0..<n] = [a..<min b n]"
proof (induction n)
  case 0
  show ?case by simp
next
  case (Suc n)
  show ?case
  proof (cases "n < b")
    case False
    then have "min b n = b" "min b (Suc n) = b" by simp_all
    with Suc False show ?thesis by simp
  next
    case True
    then have m: "min b n = n" "min b (Suc n) = Suc n" by simp_all
    show ?thesis
    proof (cases "a \<le> n")
      case True
      with \<open>n < b\<close> Suc m show ?thesis by simp
    next
      case False
      with \<open>n < b\<close> Suc m show ?thesis by simp
    qed
  qed
qed

lemma bucket_time_le: "0 < ms \<Longrightarrow> t0 + int i * ms \<le> t0 + int j * ms \<longleftrightarrow> i \<le> j"
  by (simp add: mult_le_cancel_right)

lemma bucket_time_less: "0 < ms \<Longrightarrow> t0 + int i * ms < t0 + int j * ms \<longleftrightarrow> i < j"
  by (simp add: mult_less_cancel_right)

lemma buckets_filter:
  assumes "\<And>i. i < n \<Longrightarrow> P (t0 + int i * ms) \<longleftrightarrow> a \<le> i \<and> i < b"
  shows "filter (\<lambda>k. P (openTime k)) (buckets t0 ms c n)
       = map (\<lambda>i. \<lparr> openTime = t0 + int i * ms, close = c i \<rparr>) [a..<min b n]"
proof -
  have "filter (\<lambda>i. P (t0 + int i * ms)) [0..<n] = filter (\<lambda>i. a \<le> i \<and> i < b) [0..<n]"
    by (rule filter_cong) (use assms in auto)
  then show ?thesis
    by (simp add: buckets_def filter_map comp_def filter_upt_range)
qed

text \<open>A full page: 1000 buckets lie before the end of the page.\<close>

lemma exchange_full_page:
  assumes ms: "0 < ms" and n: "a + 1000 \<le> n" and e: "t0 + int (a + 1000) * ms \<le> endT"
  shows "exchange incl (buckets t0 ms c n) k (pageRequest api ms endT (t0 + int a * ms))
       = Rows (map (\<lambda>i. \<lparr> openTime = t0 + int i * ms, close = c i \<rparr>) [a..<a + 1000])"
proof -
  have hi: "min (t0 + int a * ms + int batchSize * ms) endT = t0 + int (a + 1000) * ms"
    using e by (simp add: batchSize_def algebra_simps)
  let ?b = "if incl then a + 1001 else a + 1000"
  have r: "inRange incl (pageRequest api ms endT (t0 + int a * ms)) (t0 + int i * ms) \<longleftrightarrow> a \<le> i \<and> i < ?b" for i
  proof -
    have "t0 + int i * ms \<le> t0 + int (a + 1000) * ms \<longleftrightarrow> i < a + 1001"
      using bucket_time_le [OF ms, of t0 i "a + 1000"] by auto
    moreover have "t0 + int i * ms < t0 + int (a + 1000) * ms \<longleftrightarrow> i < a + 1000"
      using bucket_time_less [OF ms, of t0 i "a + 1000"] by auto
    ultimately show ?thesis
      unfolding inRange_def pageRequest_def
      by (simp only: request.simps option.case hi bucket_time_le [OF ms]) simp
  qed
  have "filter (\<lambda>k. inRange incl (pageRequest api ms endT (t0 + int a * ms)) (openTime k)) (buckets t0 ms c n)
        = map (\<lambda>i. \<lparr> openTime = t0 + int i * ms, close = c i \<rparr>) [a..<min ?b n]"
    by (rule buckets_filter) (rule r)
  moreover have "take 1000 [a..<min ?b n] = [a..<a + 1000]"
    using n by (auto simp: take_upt min_def)
  ultimately show ?thesis
    by (simp add: exchange_def pageRequest_def batchSize_def take_map)
qed

text \<open>The last page: the window ends after the last bucket and within the page.\<close>

lemma exchange_last_page:
  assumes ms: "0 < ms" and n: "a < n" "n \<le> a + 1000"
    and e: "t0 + int (n - 1) * ms < endT" "endT \<le> t0 + int (a + 1000) * ms"
  shows "exchange incl (buckets t0 ms c n) k (pageRequest api ms endT (t0 + int a * ms))
       = Rows (map (\<lambda>i. \<lparr> openTime = t0 + int i * ms, close = c i \<rparr>) [a..<n])"
proof -
  have hi: "min (t0 + int a * ms + int batchSize * ms) endT = endT"
    using e(2) by (simp add: batchSize_def algebra_simps)
  have r: "inRange incl (pageRequest api ms endT (t0 + int a * ms)) (t0 + int i * ms) \<longleftrightarrow> a \<le> i \<and> i < n"
    if "i < n" for i
  proof -
    from that have "i \<le> n - 1" by simp
    then have "t0 + int i * ms \<le> t0 + int (n - 1) * ms"
      by (simp only: bucket_time_le [OF ms])
    with e(1) have "t0 + int i * ms < endT" by simp
    with that show ?thesis
      unfolding inRange_def pageRequest_def
      by (simp only: request.simps option.case hi bucket_time_le [OF ms]) simp
  qed
  have "filter (\<lambda>k. inRange incl (pageRequest api ms endT (t0 + int a * ms)) (openTime k)) (buckets t0 ms c n)
        = map (\<lambda>i. \<lparr> openTime = t0 + int i * ms, close = c i \<rparr>) [a..<min n n]"
    by (rule buckets_filter) (rule r)
  moreover have "take 1000 [a..<n] = [a..<n]"
    using n by (simp add: take_upt)
  ultimately show ?thesis
    by (simp add: exchange_def pageRequest_def batchSize_def take_map)
qed

lemma last_bucket_cursor:
  "a < b \<Longrightarrow>
   openTime (last (map (\<lambda>i. \<lparr> openTime = t0 + int i * ms, close = c i \<rparr>) [a..<b])) + ms
     = t0 + int b * ms"
proof -
  assume ab: "a < b"
  then have "[a..<b] \<noteq> []" by simp
  then have "last (map (\<lambda>i. \<lparr> openTime = t0 + int i * ms, close = c i \<rparr>) [a..<b])
      = \<lparr> openTime = t0 + int (last [a..<b]) * ms, close = c (last [a..<b]) \<rparr>"
    by (rule last_map)
  also from ab have "last [a..<b] = b - 1" by (rule last_upt)
  finally have "openTime (last (map (\<lambda>i. \<lparr> openTime = t0 + int i * ms, close = c i \<rparr>) [a..<b]))
      = t0 + int (b - 1) * ms" by simp
  with ab show ?thesis
    by (simp add: algebra_simps of_nat_diff)
qed



lemma buckets_append:
  "a \<le> b \<Longrightarrow> b \<le> n \<Longrightarrow>
   map (\<lambda>i. \<lparr> openTime = t0 + int i * ms, close = c i \<rparr>) [a..<b]
     @ map (\<lambda>i. \<lparr> openTime = t0 + int i * ms, close = c i \<rparr>) [b..<n]
   = map (\<lambda>i. \<lparr> openTime = t0 + int i * ms, close = c i \<rparr>) [a..<n]"
proof -
  assume "a \<le> b" "b \<le> n"
  then have "[a..<n] = [a..<b] @ [b..<n]"
    using upt_add_eq_append [of a b "n - b"] by simp
  then show ?thesis by (simp only: map_append)
qed

lemma three_pages:
  fixes t0 ms endT :: int
  assumes ms: "0 < ms" and lo: "t0 + 2499 * ms < endT" and hi: "endT \<le> t0 + 2500 * ms"
  shows "fetchLoop (exchange incl (buckets t0 ms c 2500)) api ms endT t0 [] []
    = Some (Inr (buckets t0 ms c 2500,
        [pageRequest api ms endT t0,
         pageRequest api ms endT (t0 + 1000 * ms),
         pageRequest api ms endT (t0 + 2000 * ms)]))"
proof -
  let ?mk = "\<lambda>i. \<lparr> openTime = t0 + int i * ms, close = c i \<rparr>"
  let ?src = "exchange incl (buckets t0 ms c 2500)"
  let ?r0 = "pageRequest api ms endT t0"
  let ?r1 = "pageRequest api ms endT (t0 + 1000 * ms)"
  let ?r2 = "pageRequest api ms endT (t0 + 2000 * ms)"
  have c0: "t0 < endT" and c1: "t0 + 1000 * ms < endT" and c2: "t0 + 2000 * ms < endT"
    and c3: "\<not> t0 + 2500 * ms < endT"
    using ms lo hi by linarith+
  have e1: "t0 + int (0 + 1000) * ms \<le> endT" and e2: "t0 + int (1000 + 1000) * ms \<le> endT"
    and e3: "t0 + int (2500 - 1) * ms < endT" and e4: "endT \<le> t0 + int (2000 + 1000) * ms"
    using ms lo hi by simp_all
  have p0: "?src k ?r0 = Rows (map ?mk [0..<1000])" for k
    using exchange_full_page [OF ms _ e1, of 2500 incl c k api] by simp
  have p1: "?src k ?r1 = Rows (map ?mk [1000..<2000])" for k
    using exchange_full_page [OF ms _ e2, of 2500 incl c k api] by (simp del: upt_rec_numeral)
  have p2: "?src k ?r2 = Rows (map ?mk [2000..<2500])" for k
    using exchange_last_page [OF ms _ _ e3 e4, of incl c k api] by (simp del: upt_rec_numeral)
  have n0: "map ?mk [0..<1000] \<noteq> []" and n1: "map ?mk [1000..<2000] \<noteq> []"
    and n2: "map ?mk [2000..<2500] \<noteq> []"
    by (simp_all del: upt_rec_numeral)
  have l0: "openTime (last (map ?mk [0..<1000])) + ms = t0 + 1000 * ms"
    using last_bucket_cursor [of 0 1000 t0 ms c] by simp
  have l1: "openTime (last (map ?mk [1000..<2000])) + ms = t0 + 2000 * ms"
    using last_bucket_cursor [of 1000 2000 t0 ms c] by (simp del: upt_rec_numeral)
  have l2: "openTime (last (map ?mk [2000..<2500])) + ms = t0 + 2500 * ms"
    using last_bucket_cursor [of 2000 2500 t0 ms c] by (simp del: upt_rec_numeral)
  have a1: "map ?mk [0..<1000] @ map ?mk [1000..<2000] = map ?mk [0..<2000]"
    by (rule buckets_append) simp_all
  have a2: "map ?mk [0..<2000] @ map ?mk [2000..<2500] = map ?mk [0..<2500]"
    by (rule buckets_append) simp_all
  have "fetchLoop ?src api ms endT t0 [] []
      = fetchLoop ?src api ms endT (openTime (last (map ?mk [0..<1000])) + ms) ([] @ map ?mk [0..<1000]) ([] @ [?r0])"
    by (rule fetchLoop_page [where src = ?src and sent = "[]" and acc = "[]", OF c0 p0 n0])
  also have "\<dots> = fetchLoop ?src api ms endT (t0 + 1000 * ms) (map ?mk [0..<1000]) [?r0]"
    by (simp only: l0 append_Nil)
  also have "\<dots> = fetchLoop ?src api ms endT (openTime (last (map ?mk [1000..<2000])) + ms)
        (map ?mk [0..<1000] @ map ?mk [1000..<2000]) ([?r0] @ [?r1])"
    by (rule fetchLoop_page [where src = ?src and sent = "[?r0]" and acc = "map ?mk [0..<1000]", OF c1 p1 n1])
  also have "\<dots> = fetchLoop ?src api ms endT (t0 + 2000 * ms) (map ?mk [0..<2000]) [?r0, ?r1]"
    by (simp only: l1 a1 append_Cons append_Nil)
  also have "\<dots> = fetchLoop ?src api ms endT (openTime (last (map ?mk [2000..<2500])) + ms)
        (map ?mk [0..<2000] @ map ?mk [2000..<2500]) ([?r0, ?r1] @ [?r2])"
    by (rule fetchLoop_page [where src = ?src and sent = "[?r0, ?r1]" and acc = "map ?mk [0..<2000]", OF c2 p2 n2])
  also have "\<dots> = fetchLoop ?src api ms endT (t0 + 2500 * ms) (map ?mk [0..<2500]) [?r0, ?r1, ?r2]"
    by (simp only: l2 a2 append_Cons append_Nil)
  also have "\<dots> = Some (Inr (map ?mk [0..<2500], [?r0, ?r1, ?r2]))"
    by (rule fetchLoop_done [where src = ?src, OF c3])
  finally show ?thesis
    by (simp only: buckets_def)
qed

lemma buckets_times: "map openTime (buckets t0 ms c n) = map (\<lambda>i. t0 + int i * ms) [0..<n]"
  by (simp add: buckets_def comp_def)

lemma buckets_ascending: "0 < ms \<Longrightarrow> sorted_wrt (<) (map openTime (buckets t0 ms c n))"
proof -
  assume ms: "0 < ms"
  then have "sorted_wrt (<) (map (\<lambda>i. t0 + int i * ms) [0..<n])"
    by (simp add: sorted_wrt_iff_nth_less mult_less_cancel_right)
  then show ?thesis
    by (simp only: buckets_times)
qed



text \<open>
  Claim C5. Against an exchange that holds the 2500 buckets of the window and returns
  every bucket of a requested range (closed or half-open) up to the limit, the loop
  issues exactly three page requests, starting at buckets 0, 1000 and 2000, and
  returns the 2500 buckets once each, in ascending order of open time and with no gap.
  The loop returns when the cursor has reached \<open>endT\<close> and when a page is empty.
\<close>

theorem paged_fetch_2500:
  fixes t0 ms endT :: int
  assumes "0 < ms" and "t0 + 2499 * ms < endT" and "endT \<le> t0 + 2500 * ms"
  shows "fetchLoop (exchange incl (buckets t0 ms c 2500)) api ms endT t0 [] []
      = Some (Inr (buckets t0 ms c 2500,
          [pageRequest api ms endT t0,
           pageRequest api ms endT (t0 + 1000 * ms),
           pageRequest api ms endT (t0 + 2000 * ms)]))
    \<and> map openTime (buckets t0 ms c 2500) = map (\<lambda>i. t0 + int i * ms) [0..<2500]
    \<and> sorted_wrt (<) (map openTime (buckets t0 ms c 2500))
    \<and> distinct (map openTime (buckets t0 ms c 2500))
    \<and> (\<not> cur < endT' \<longrightarrow> fetchLoop src api' ms' endT' cur acc sent = Some (Inr (acc, sent)))
    \<and> (cur < endT' \<and> src (length sent) (pageRequest api' ms' endT' cur) = Rows []
        \<longrightarrow> fetchLoop src api' ms' endT' cur acc sent
            = Some (Inr (acc, sent @ [pageRequest api' ms' endT' cur])))"
proof (intro conjI impI)
  show "fetchLoop (exchange incl (buckets t0 ms c 2500)) api ms endT t0 [] []
      = Some (Inr (buckets t0 ms c 2500,
          [pageRequest api ms endT t0,
           pageRequest api ms endT (t0 + 1000 * ms),
           pageRequest api ms endT (t0 + 2000 * ms)]))"
    using assms by (rule three_pages)
  show "map openTime (buckets t0 ms c 2500) = map (\<lambda>i. t0 + int i * ms) [0..<2500]"
    by (rule buckets_times)
  show s: "sorted_wrt (<) (map openTime (buckets t0 ms c 2500))"
    using assms(1) by (rule buckets_ascending)
  then show "distinct (map openTime (buckets t0 ms c 2500))"
    by (simp only: strict_sorted_iff)
next
  assume "\<not> cur < endT'"
  then show "fetchLoop src api' ms' endT' cur acc sent = Some (Inr (acc, sent))"
    by (rule fetchLoop_done)
next
  assume "cur < endT' \<and> src (length sent) (pageRequest api' ms' endT' cur) = Rows []"
  then show "fetchLoop src api' ms' endT' cur acc sent
      = Some (Inr (acc, sent @ [pageRequest api' ms' endT' cur]))"
    by (simp add: fetchLoop_empty)
qed

theorem paged_fetch_2500_witness:
  "(0::int) < 60000 \<and> (0::int) + 2499 * 60000 < 149999999 \<and> (149999999::int) \<le> 0 + 2500 * 60000
   \<and> fetchLoop (exchange True (buckets 0 60000 (\<lambda>i. ''100'') 2500)) ''1m'' 60000 149999999 0 [] []
      = Some (Inr (buckets 0 60000 (\<lambda>i. ''100'') 2500,
          [pageRequest ''1m'' 60000 149999999 0,
           pageRequest ''1m'' 60000 149999999 60000000,
           pageRequest ''1m'' 60000 149999999 120000000]))
   \<and> sorted_wrt (<) (map openTime (buckets 0 60000 (\<lambda>i. ''100'') 2500))"
proof -
  have a: "(0::int) < 60000" and b: "(0::int) + 2499 * 60000 < 149999999"
    and c: "(149999999::int) \<le> 0 + 2500 * 60000"
    by simp_all
  note t = paged_fetch_2500 [OF a b c, of True "\<lambda>i. ''100''" "''1m''"]
  have "fetchLoop (exchange True (buckets 0 60000 (\<lambda>i. ''100'') 2500)) ''1m'' 60000 149999999 0 [] []
      = Some (Inr (buckets 0 60000 (\<lambda>i. ''100'') 2500,
          [pageRequest ''1m'' 60000 149999999 0,
           pageRequest ''1m'' 60000 149999999 60000000,
           pageRequest ''1m'' 60000 149999999 120000000]))"
    using t [THEN conjunct1] by simp
  moreover have "sorted_wrt (<) (map openTime (buckets 0 60000 (\<lambda>i. ''100'') 2500))"
    using t [THEN conjunct2, THEN conjunct2, THEN conjunct1] .
  ultimately show ?thesis
    using a b c by (intro conjI)
qed

text \<open>
  Claim C6. A fetch that returns candles has had every page request answered with
  rows; a page request that fails makes the loop return the failure, whatever had
  been accumulated; and on a failure \<open>fetchHistoricalData\<close> leaves the component state,
  and with it the chart data, as it was.
\<close>

theorem failed_page_fails_fetch:
  "(fetchLoop src api ms endT cur acc sent = Some (Inr (dat, sent'))
      \<longrightarrow> (\<forall>n. length sent \<le> n \<and> n < length sent' \<longrightarrow> src n (sent' ! n) \<noteq> Failed))
   \<and> (cur < endT \<and> src (length sent) (pageRequest api ms endT cur) = Failed
      \<longrightarrow> fetchLoop src api ms endT cur acc sent = Some (Inl FetchFailed))
   \<and> (fetchAll H src now iv = Some (Inl e)
      \<longrightarrow> fetchHistoricalData H src now iv pc s = Some s)
   \<and> historyDone H iv pc (Inl e) s = s"
proof (intro conjI impI)
  assume "fetchLoop src api ms endT cur acc sent = Some (Inr (dat, sent'))"
  from fetchLoop_success_answered [OF this] have "answered src sent sent'"
    by simp
  then show "\<forall>n. length sent \<le> n \<and> n < length sent' \<longrightarrow> src n (sent' ! n) \<noteq> Failed"
    by (simp add: answered_def)
next
  assume "cur < endT \<and> src (length sent) (pageRequest api ms endT cur) = Failed"
  then show "fetchLoop src api ms endT cur acc sent = Some (Inl FetchFailed)"
    by (simp add: fetchLoop_failed)
next
  assume "fetchAll H src now iv = Some (Inl e)"
  then show "fetchHistoricalData H src now iv pc s = Some s"
    by (rule fetchHistoricalData_failure)
next
  show "historyDone H iv pc (Inl e) s = s"
    by (rule historyDone_failure)
qed

theorem failed_page_fails_fetch_witness:
  "fetchAll demoHost failSecond 604800000 Week = Some (Inl FetchFailed)
   \<and> fetchHistoricalData demoHost failSecond 604800000 Week None emptyToday = Some emptyToday"
proof -
  let ?r0 = "pageRequest ''1h'' 3600000 604800000 0"
  let ?k0 = "\<lparr> openTime = 0, close = ''100'' \<rparr>"
  have cfg: "getTimeConfig demoHost 604800000 Week
      = \<lparr> startTime = 0, endTime = 604800000, apiInterval = ''1h'', intervalMs = 3600000 \<rparr>"
    by (simp add: getTimeConfig_def)
  have first: "fetchLoop failSecond ''1h'' 3600000 604800000 0 [] []
      = fetchLoop failSecond ''1h'' 3600000 604800000 (openTime (last [?k0]) + 3600000) ([] @ [?k0]) ([] @ [?r0])"
    by (rule fetchLoop_page [where src = failSecond and sent = "[]" and acc = "[]"])
      (simp_all add: failSecond_def)
  have h: "(3600000::int) < 604800000
      \<and> failSecond (length [?r0]) (pageRequest ''1h'' 3600000 604800000 3600000) = Failed"
    by (simp add: failSecond_def)
  note t = failed_page_fails_fetch
    [of failSecond "''1h''" 3600000 604800000 3600000 "[?k0]" "[?r0]" _ _ demoHost 604800000 Week
      FetchFailed None emptyToday]
  from t [THEN conjunct2, THEN conjunct1, THEN mp, OF h]
  have second: "fetchLoop failSecond ''1h'' 3600000 604800000 3600000 [?k0] [?r0] = Some (Inl FetchFailed)" .
  have all: "fetchAll demoHost failSecond 604800000 Week = Some (Inl FetchFailed)"
    unfolding fetchAll_def cfg by (simp add: first second)
  from t [THEN conjunct2, THEN conjunct2, THEN conjunct1, THEN mp, OF all] all
  show ?thesis
    by (intro conjI)
qed


section \<open>Interval switches and calls in flight\<close>


lemma dailyRows_price: "previousClosePrice demoHost Today dailyRows = Some (Num 100)"
  by (simp add: previousClosePrice_def rowClose_def dailyRows_def demoHost_def utc_host_def
      parseDemo_def)

lemma fetchPreviousClose_daily:
  "fetchPreviousClose demoHost Today (Rows dailyRows) s
     = s \<lparr> previousClose := Some (Num 100), yesterdayClose := Some (Num 100) \<rparr>"
  by (simp add: fetchPreviousClose_def dailyRows_price)

lemma step_Select:
  "step H (Select iv) a = runEffects (st a) (a \<lparr> st := (st a) \<lparr> interval := iv \<rparr> \<rparr>)"
  by (simp add: step_def)

lemma step_BaselineAnswered:
  "k < length (inflight a) \<Longrightarrow> inflight a ! k = BaselineCall iv \<Longrightarrow>
   step H (BaselineAnswered k r) a
     = runEffects (st a) (a \<lparr> st := fetchPreviousClose H iv r (st a), inflight := without k (inflight a) \<rparr>)"
  by (simp add: step_def)

lemma step_HistoryAnswered:
  "k < length (inflight a) \<Longrightarrow> inflight a ! k = HistoryCall iv pc \<Longrightarrow>
   step H (HistoryAnswered k outcome) a
     = runEffects (st a) (a \<lparr> st := historyDone H iv pc outcome (st a), inflight := without k (inflight a) \<rparr>)"
  by (simp add: step_def)

lemma runEffects_st: "st (runEffects old a) = st a"
  by (simp add: runEffects_def)

lemma runEffects_inflight_prefix: "take (length (inflight a)) (inflight (runEffects old a)) = inflight a"
  by (simp add: runEffects_def)

text \<open>
  Claim C4 fails as stated. After the switch to the week, the answer to Today's
  baseline call stores 100 as the baseline and the answer to Today's history call
  replaces the chart by Today's grid, although the week is selected; and a baseline
  resolved for Today is still the baseline after the switch.
\<close>

theorem stale_response_overwrites:
  "interval (st staleRun) = Week
   \<and> previousClose (st staleRun) = Some (Num 100)
   \<and> chartData (st staleRun) = initialChart Today None (build demoHost Today [])
   \<and> interval (st carryRun) = Week
   \<and> previousClose (st carryRun) = Some (Num 100)"
proof -
  have s: "st staleRun = state0 \<lparr> interval := Week, previousClose := Some (Num 100),
      yesterdayClose := Some (Num 100),
      chartData := initialChart Today None (build demoHost Today []) \<rparr>"
    by (simp add: staleRun_def step_def mounted_def runEffects_def without_def
        fetchPreviousClose_daily historyDone_def state0_def)
  have c: "st carryRun = state0 \<lparr> previousClose := Some (Num 100),
      yesterdayClose := Some (Num 100), interval := Week \<rparr>"
    by (simp add: carryRun_def step_def mounted_def runEffects_def without_def
        fetchPreviousClose_daily state0_def)
  show ?thesis
    by (simp add: s c)
qed

text \<open>
  Claim C4, amended. Switching the interval changes the interval only: the chart data
  and the baseline stay as they are, every call in flight stays in flight, the calls
  of the new interval are started and the socket is closed (and reopened for Today).
  A call in flight writes its result when it is answered, whatever interval is
  selected by then: the answer to a baseline call stores its price, if truthy, as the
  baseline, and the answer to a history call replaces the chart data by the chart
  built for the interval and the baseline of that call.
\<close>

theorem switch_keeps_series_and_baseline:
  "chartData (st (step H (Select iv) a)) = chartData (st a)
   \<and> previousClose (st (step H (Select iv) a)) = previousClose (st a)
   \<and> interval (st (step H (Select iv) a)) = iv
   \<and> take (length (inflight a)) (inflight (step H (Select iv) a)) = inflight a
   \<and> (iv \<noteq> interval (st a)
        \<longrightarrow> inflight (step H (Select iv) a)
              = inflight a @ [BaselineCall iv, HistoryCall iv (previousClose (st a))]
          \<and> socket (step H (Select iv) a)
              = (if iv = Today then Some (Today, previousClose (st a)) else None))
   \<and> (k < length (inflight a) \<and> inflight a ! k = BaselineCall iv'
        \<and> previousClosePrice H iv' dat = Some p \<and> truthy p
        \<longrightarrow> previousClose (st (step H (BaselineAnswered k (Rows dat)) a)) = Some p)
   \<and> (k < length (inflight a) \<and> inflight a ! k = HistoryCall iv' pc'
        \<longrightarrow> chartData (st (step H (HistoryAnswered k (Inr dat')) a))
              = initialChart iv' pc' (build H iv' dat'))"
proof (intro conjI impI)
  show "chartData (st (step H (Select iv) a)) = chartData (st a)"
    and "previousClose (st (step H (Select iv) a)) = previousClose (st a)"
    and "interval (st (step H (Select iv) a)) = iv"
    by (simp_all add: step_Select runEffects_st)
  show "take (length (inflight a)) (inflight (step H (Select iv) a)) = inflight a"
    using runEffects_inflight_prefix [of "a \<lparr> st := (st a) \<lparr> interval := iv \<rparr> \<rparr>" "st a"]
    by (simp add: step_Select)
next
  assume "iv \<noteq> interval (st a)"
  then show "inflight (step H (Select iv) a)
      = inflight a @ [BaselineCall iv, HistoryCall iv (previousClose (st a))]"
    and "socket (step H (Select iv) a)
      = (if iv = Today then Some (Today, previousClose (st a)) else None)"
    by (simp_all add: step_Select runEffects_def)
next
  assume "k < length (inflight a) \<and> inflight a ! k = BaselineCall iv'
      \<and> previousClosePrice H iv' dat = Some p \<and> truthy p"
  then show "previousClose (st (step H (BaselineAnswered k (Rows dat)) a)) = Some p"
    by (simp add: step_BaselineAnswered runEffects_st fetchPreviousClose_stores)
next
  assume "k < length (inflight a) \<and> inflight a ! k = HistoryCall iv' pc'"
  then show "chartData (st (step H (HistoryAnswered k (Inr dat')) a))
      = initialChart iv' pc' (build H iv' dat')"
    by (simp add: step_HistoryAnswered runEffects_st historyDone_def)
qed



theorem switch_keeps_series_and_baseline_witness:
  "Week \<noteq> interval (st mounted)
   \<and> chartData (st (step demoHost (Select Week) mounted)) = chartData (st mounted)
   \<and> previousClose (st (step demoHost (Select Week) mounted)) = previousClose (st mounted)
   \<and> inflight (step demoHost (Select Week) mounted)
       = [BaselineCall Today, HistoryCall Today None, BaselineCall Week, HistoryCall Week None]
   \<and> socket (step demoHost (Select Week) mounted) = None
   \<and> previousClose (st (step demoHost (BaselineAnswered 0 (Rows dailyRows))
         (step demoHost (Select Week) mounted))) = Some (Num 100)
   \<and> chartData (st (step demoHost (HistoryAnswered 1 (Inr []))
         (step demoHost (Select Week) mounted))) = initialChart Today None (build demoHost Today [])"
proof -
  let ?a = "step demoHost (Select Week) mounted"
  have w: "Week \<noteq> interval (st mounted)"
    by (simp add: mounted_def state0_def)
  note t0 = switch_keeps_series_and_baseline [where H = demoHost and iv = Week and a = mounted]
  have 1: "chartData (st ?a) = chartData (st mounted)"
    by (rule t0 [THEN conjunct1])
  have 2: "previousClose (st ?a) = previousClose (st mounted)"
    by (rule t0 [THEN conjunct2, THEN conjunct1])
  note sw = t0 [THEN conjunct2, THEN conjunct2, THEN conjunct2, THEN conjunct2, THEN conjunct1, THEN mp, OF w]
  have 3: "inflight ?a = [BaselineCall Today, HistoryCall Today None, BaselineCall Week, HistoryCall Week None]"
    using sw [THEN conjunct1] by (simp add: mounted_def state0_def)
  have 4: "socket ?a = None"
    using sw [THEN conjunct2] by simp
  have hb: "0 < length (inflight ?a) \<and> inflight ?a ! 0 = BaselineCall Today
      \<and> previousClosePrice demoHost Today dailyRows = Some (Num 100) \<and> truthy (Num 100)"
    by (simp add: 3 dailyRows_price)
  have hh: "1 < length (inflight ?a) \<and> inflight ?a ! 1 = HistoryCall Today None"
    by (simp add: 3)
  have 5: "previousClose (st (step demoHost (BaselineAnswered 0 (Rows dailyRows)) ?a)) = Some (Num 100)"
    by (rule switch_keeps_series_and_baseline [where H = demoHost and a = ?a and k = 0 and iv' = Today
          and dat = dailyRows and p = "Num 100",
          THEN conjunct2, THEN conjunct2, THEN conjunct2, THEN conjunct2, THEN conjunct2,
          THEN conjunct1, THEN mp, OF hb])
  have 6: "chartData (st (step demoHost (HistoryAnswered 1 (Inr [])) ?a))
      = initialChart Today None (build demoHost Today [])"
    by (rule switch_keeps_series_and_baseline [where H = demoHost and a = ?a and k = 1 and iv' = Today
          and pc' = None and dat' = "[]",
          THEN conjunct2, THEN conjunct2, THEN conjunct2, THEN conjunct2, THEN conjunct2,
          THEN conjunct2, THEN mp, OF hh])
  show ?thesis
    by (intro conjI) (rule w, rule 1, rule 2, rule 3, rule 4, rule 5, rule 6)
qed


end
